theory Spec2Isabelle
  imports Main "HOL-Library.Sublist" "HOL-Library.Word"
begin

unbundle bit_operations_syntax

section \<open>Data model (the fv1 and metav1 declarations the CLI code uses)\<close>

text \<open>
  The Go structs of \<^verbatim>\<open>fv1\<close> and \<^verbatim>\<open>metav1\<close> are not part of the
  sources at hand; the records below hold exactly the fields that the CLI code reads or
  writes, under the paths it uses (\<^verbatim>\<open>pkg.Spec.Environment.Name\<close> is
  \<open>Env_Name (Spec_Environment (Pkg_Spec pkg))\<close>).  A resource version is an opaque
  token issued by the control plane; it is a number here so that the store can issue a
  token it has not issued before, and \<open>0\<close> is the version of an object that was never
  stored.
\<close>

type_synonym byte = "8 word"

datatype BuildStatus =
  BuildStatusNone | BuildStatusPending | BuildStatusRunning | BuildStatusSucceeded
  | BuildStatusFailed

datatype ArchiveType = ArchiveTypeUnset | ArchiveTypeLiteral | ArchiveTypeUrl

datatype ChecksumType = ChecksumTypeUnset | ChecksumTypeSHA256

record Checksum =
  Checksum_Type :: ChecksumType
  Checksum_Sum :: string

record Archive =
  Archive_Type :: ArchiveType
  Archive_Literal :: "byte list"
  Archive_URL :: string
  Archive_Checksum :: Checksum

record EnvironmentReference =
  Env_Namespace :: string
  Env_Name :: string

record PackageSpec =
  Spec_Environment :: EnvironmentReference
  Spec_Source :: Archive
  Spec_Deployment :: Archive
  Spec_BuildCommand :: string

record PackageStatus =
  Status_BuildStatus :: BuildStatus
  Status_BuildLog :: string

record ObjectMeta =
  Meta_Name :: string
  Meta_Namespace :: string
  Meta_ResourceVersion :: nat

record Package =
  Pkg_Metadata :: ObjectMeta
  Pkg_Spec :: PackageSpec
  Pkg_Status :: PackageStatus

record PackageRef =
  Ref_Namespace :: string
  Ref_Name :: string
  Ref_ResourceVersion :: nat

record Function =
  Fn_Metadata :: ObjectMeta
  Fn_PackageRef :: PackageRef

record ArchiveUploadSpec =
  Aus_Name :: string
  Aus_IncludeGlobs :: "string list"

text \<open>The zero values of Go (\<^verbatim>\<open>var archive fv1.Archive\<close>, an omitted struct field).\<close>

definition zeroChecksum :: Checksum where
  "zeroChecksum = \<lparr>Checksum_Type = ChecksumTypeUnset, Checksum_Sum = []\<rparr>"

definition zeroArchive :: Archive where
  "zeroArchive = \<lparr>Archive_Type = ArchiveTypeUnset, Archive_Literal = [], Archive_URL = [],
     Archive_Checksum = zeroChecksum\<rparr>"

section \<open>The world the commands run in\<close>

text \<open>
  Every call that leaves the process (the control plane, the blob store, an HTTP server)
  or asks the operating system for something that may be refused is a \<open>request\<close>.
  A request is appended to the trace, and the parameter \<open>faults\<close> says, for the
  number of requests made so far, whether it is refused and with which error text.
\<close>

datatype request =
  ReqPackageGet string string
  | ReqPackageUpdate string string
  | ReqPackageDelete string string
  | ReqPackageList string
  | ReqFunctionList string
  | ReqFunctionUpdate string string
  | ReqGetSvcURL string
  | ReqUpload string string
  | ReqHTTPGet string
  | ReqGetTempDir
  | ReqMkdir string
  | ReqCreate string
  | ReqCopy string
  | ReqChmod string
  | ReqRename string string
  | ReqRead string
  | ReqMakeArchive string "string list"
  | ReqReadSpecs string
  | ReqSpecSave string


text \<open>
  The parameters of a run: what the absent collaborators compute.  \<open>FindAllGlobs\<close>,
  \<open>ZipMatch\<close> and \<open>MakeArchive\<close> read the local files, so they take them as an
  argument; \<open>uniuri\<close>, \<open>uuidV4\<close> and \<open>TempDir\<close> are indexed by the tick at which
  they are drawn.
\<close>

record config =
  Url :: string
  faults :: "nat \<Rightarrow> request \<Rightarrow> string option"
  web :: "string \<Rightarrow> byte list option"
  ArchiveLiteralSizeLimit :: int
  sha256 :: "byte list \<Rightarrow> byte list"
  FindAllGlobs :: "(string \<Rightarrow> byte list option) \<Rightarrow> string list \<Rightarrow> string + string list"
  ZipMatch :: "(string \<Rightarrow> byte list option) \<Rightarrow> string \<Rightarrow> bool"
  MakeArchiveBytes :: "(string \<Rightarrow> byte list option) \<Rightarrow> string \<Rightarrow> string list \<Rightarrow> string \<times> byte list"
  TempDir :: "nat \<Rightarrow> string"
  uniuri :: "nat \<Rightarrow> nat \<Rightarrow> string"
  uuidV4 :: "nat \<Rightarrow> string"
  KubifyName :: "string \<Rightarrow> string"
  SvcURL :: "string \<Rightarrow> string"
  UploadId :: "nat \<Rightarrow> string"
  GetUrl :: "string \<Rightarrow> string \<Rightarrow> string"
  ARCHIVE_URL_PREFIX :: string

record world =
  cfg :: config
  packageStore :: "Package list"
  functionStore :: "Function list"
  nextVersion :: nat
  fs :: "string \<Rightarrow> byte list option"
  blobs :: "(string \<times> byte list) list"
  registry :: "ArchiveUploadSpec list"
  stdout :: "string list"
  trace :: "request list"
  tick :: nat

text \<open>
  Modelled from the spec: \<^verbatim>\<open>log.Fatal\<close> and \<^verbatim>\<open>util.CheckErr\<close> are not
  among the sources.  Section 9 of the specification describes them: the source halts
  the whole process on any error.  So a command ends other than by returning normally
  when \<^verbatim>\<open>log.Fatal(msg)\<close> reports and terminates the process, when
  \<^verbatim>\<open>util.CheckErr(err, msg)\<close> does the same because \<^verbatim>\<open>err\<close> is not nil,
  or when a function returns a non-nil error to its caller.
\<close>

datatype failure =
  LogFatal string
  | CheckErrFatal string string
  | Returned string

definition invoke :: "world \<Rightarrow> request \<Rightarrow> string option \<times> world" where
  "invoke w r = (faults (cfg w) (tick w) r, w\<lparr>trace := trace w @ [r], tick := tick w + 1\<rparr>)"

definition draw :: "world \<Rightarrow> nat \<times> world" where
  "draw w = (tick w, w\<lparr>tick := tick w + 1\<rparr>)"

definition CheckErr :: "string \<Rightarrow> (string + 'a) \<times> world \<Rightarrow> (failure + 'a) \<times> world" where
  "CheckErr msg r =
     (case r of
        (Inl err, w) \<Rightarrow> (Inl (CheckErrFatal msg err), w)
      | (Inr x, w) \<Rightarrow> (Inr x, w))"

definition HasPrefix :: "string \<Rightarrow> string \<Rightarrow> bool" where
  "HasPrefix s p = prefix p s"

definition TrimSuffix :: "string \<Rightarrow> string \<Rightarrow> string" where
  "TrimSuffix s suf = (if suffix suf s then take (length s - length suf) s else s)"

definition isHTTP :: "string \<Rightarrow> bool" where
  "isHTTP path = (HasPrefix path ''http://'' \<or> HasPrefix path ''https://'')"

definition Join :: "string \<Rightarrow> string \<Rightarrow> string" where
  "Join dir file = dir @ ''/'' @ file"

section \<open>The control plane client\<close>

text \<open>
  Modelled from the spec: the controller client (package \<^verbatim>\<open>pkg/controller/client\<close>)
  is not among the sources.  Section 6 of the specification gives its contract:
  get, update, delete and list of packages and functions keyed by namespace and name,
  returning and accepting a resource version for optimistic concurrency; section 5 adds
  that a write that targets a stale resource version fails, and section 3 that every
  persisted mutation issues a new resource version.  This holds for every operation of
  the client defined in this section.
\<close>

definition pkgKey :: "Package \<Rightarrow> string \<times> string" where
  "pkgKey p = (Meta_Namespace (Pkg_Metadata p), Meta_Name (Pkg_Metadata p))"

definition fnKey :: "Function \<Rightarrow> string \<times> string" where
  "fnKey fn = (Meta_Namespace (Fn_Metadata fn), Meta_Name (Fn_Metadata fn))"

definition PackageGet :: "world \<Rightarrow> string \<Rightarrow> string \<Rightarrow> (string + Package) \<times> world" where
  "PackageGet w ns n =
     (case invoke w (ReqPackageGet ns n) of
        (Some err, w1) \<Rightarrow> (Inl err, w1)
      | (None, w1) \<Rightarrow>
          (case find (\<lambda>p. pkgKey p = (ns, n)) (packageStore w1) of
             None \<Rightarrow> (Inl ''not found'', w1)
           | Some p \<Rightarrow> (Inr p, w1)))"

definition PackageList :: "world \<Rightarrow> string \<Rightarrow> (string + Package list) \<times> world" where
  "PackageList w ns =
     (case invoke w (ReqPackageList ns) of
        (Some err, w1) \<Rightarrow> (Inl err, w1)
      | (None, w1) \<Rightarrow>
          (Inr (filter (\<lambda>p. Meta_Namespace (Pkg_Metadata p) = ns) (packageStore w1)), w1))"

definition PackageUpdate :: "world \<Rightarrow> Package \<Rightarrow> (string + ObjectMeta) \<times> world" where
  "PackageUpdate w pkg =
     (case invoke w (ReqPackageUpdate (fst (pkgKey pkg)) (snd (pkgKey pkg))) of
        (Some err, w1) \<Rightarrow> (Inl err, w1)
      | (None, w1) \<Rightarrow>
          (case find (\<lambda>p. pkgKey p = pkgKey pkg) (packageStore w1) of
             None \<Rightarrow> (Inl ''not found'', w1)
           | Some old \<Rightarrow>
               if Meta_ResourceVersion (Pkg_Metadata old)
                    \<noteq> Meta_ResourceVersion (Pkg_Metadata pkg)
               then (Inl ''conflict'', w1)
               else
                 let m = (Pkg_Metadata pkg)\<lparr>Meta_ResourceVersion := nextVersion w1\<rparr>;
                     stored = pkg\<lparr>Pkg_Metadata := m\<rparr>
                 in (Inr m,
                     w1\<lparr>packageStore :=
                          map (\<lambda>p. if pkgKey p = pkgKey pkg then stored else p) (packageStore w1),
                        nextVersion := nextVersion w1 + 1\<rparr>)))"

definition PackageDelete :: "world \<Rightarrow> string \<Rightarrow> string \<Rightarrow> (string + unit) \<times> world" where
  "PackageDelete w ns n =
     (case invoke w (ReqPackageDelete ns n) of
        (Some err, w1) \<Rightarrow> (Inl err, w1)
      | (None, w1) \<Rightarrow>
          (case find (\<lambda>p. pkgKey p = (ns, n)) (packageStore w1) of
             None \<Rightarrow> (Inl ''not found'', w1)
           | Some p \<Rightarrow>
               (Inr (), w1\<lparr>packageStore := filter (\<lambda>p. pkgKey p \<noteq> (ns, n)) (packageStore w1)\<rparr>)))"

definition FunctionList :: "world \<Rightarrow> string \<Rightarrow> (string + Function list) \<times> world" where
  "FunctionList w ns =
     (case invoke w (ReqFunctionList ns) of
        (Some err, w1) \<Rightarrow> (Inl err, w1)
      | (None, w1) \<Rightarrow>
          (Inr (filter (\<lambda>fn. Meta_Namespace (Fn_Metadata fn) = ns) (functionStore w1)), w1))"

definition FunctionUpdate :: "world \<Rightarrow> Function \<Rightarrow> (string + ObjectMeta) \<times> world" where
  "FunctionUpdate w fn =
     (case invoke w (ReqFunctionUpdate (fst (fnKey fn)) (snd (fnKey fn))) of
        (Some err, w1) \<Rightarrow> (Inl err, w1)
      | (None, w1) \<Rightarrow>
          (case find (\<lambda>g. fnKey g = fnKey fn) (functionStore w1) of
             None \<Rightarrow> (Inl ''not found'', w1)
           | Some old \<Rightarrow>
               if Meta_ResourceVersion (Fn_Metadata old)
                    \<noteq> Meta_ResourceVersion (Fn_Metadata fn)
               then (Inl ''conflict'', w1)
               else
                 let m = (Fn_Metadata fn)\<lparr>Meta_ResourceVersion := nextVersion w1\<rparr>;
                     stored = fn\<lparr>Fn_Metadata := m\<rparr>
                 in (Inr m,
                     w1\<lparr>functionStore :=
                          map (\<lambda>g. if fnKey g = fnKey fn then stored else g) (functionStore w1),
                        nextVersion := nextVersion w1 + 1\<rparr>)))"

definition GetSvcURL :: "world \<Rightarrow> string \<Rightarrow> (string + string) \<times> world" where
  "GetSvcURL w label =
     (case invoke w (ReqGetSvcURL label) of
        (Some err, w1) \<Rightarrow> (Inl err, w1)
      | (None, w1) \<Rightarrow> (Inr (SvcURL (cfg w1) label), w1))"

text \<open>
  Modelled from the spec: the blob store client (\<^verbatim>\<open>pkg/storagesvc/client\<close>) is not
  among the sources.  Section 6: \<open>upload(byteStream) -> opaque id\<close>, and a function
  that constructs the URL of an id from a base address.  \<open>Upload\<close> sends the bytes of
  the local file to the store reached at \<open>base\<close>.
\<close>

definition Upload :: "world \<Rightarrow> string \<Rightarrow> string \<Rightarrow> (string + string) \<times> world" where
  "Upload w base fileName =
     (case invoke w (ReqUpload base fileName) of
        (Some err, w1) \<Rightarrow> (Inl err, w1)
      | (None, w1) \<Rightarrow>
          (case fs w1 fileName of
             None \<Rightarrow> (Inl ''no such file'', w1)
           | Some bs \<Rightarrow>
               let id' = UploadId (cfg w1) (tick w) in
               (Inr id', w1\<lparr>blobs := blobs w1 @ [(id', bs)]\<rparr>)))"

section \<open>Archive transport (pkg/fission-cli/cmd/package/package.go)\<close>

text \<open>
  \<^verbatim>\<open>os.Stat\<close>, \<^verbatim>\<open>os.Open\<close> and \<^verbatim>\<open>ioutil.ReadFile\<close> succeed exactly on
  the files of \<open>fs\<close>.  The size of a file is its number of bytes, far below the
  bound of the \<^verbatim>\<open>int64\<close> that holds it, so it is an \<open>int\<close>.
\<close>

definition Stat :: "world \<Rightarrow> string \<Rightarrow> (string + int) \<times> world" where
  "Stat w filePath =
     (case fs w filePath of
        None \<Rightarrow> (Inl ''no such file or directory'', w)
      | Some bs \<Rightarrow> (Inr (int (length bs)), w))"

definition ReadFile :: "world \<Rightarrow> string \<Rightarrow> (string + byte list) \<times> world" where
  "ReadFile w filePath =
     (case fs w filePath of
        None \<Rightarrow> (Inl ''no such file or directory'', w)
      | Some bs \<Rightarrow> (Inr bs, w))"

definition FileSize :: "world \<Rightarrow> string \<Rightarrow> (failure + int) \<times> world" where
  "FileSize w filePath = CheckErr (''stat '' @ filePath) (Stat w filePath)"

definition GetContents :: "world \<Rightarrow> string \<Rightarrow> (failure + byte list) \<times> world" where
  "GetContents w filePath = CheckErr (''read '' @ filePath) (ReadFile w filePath)"

text \<open>\<^verbatim>\<open>hex.EncodeToString\<close>: two lower-case digits per byte, the high nibble first.\<close>

definition hextable :: string where
  "hextable = ''0123456789abcdef''"

fun EncodeToString :: "byte list \<Rightarrow> string" where
  "EncodeToString [] = []"
| "EncodeToString (b # bs) =
     hextable ! unat (drop_bit 4 b) # hextable ! unat (b AND 0x0f) # EncodeToString bs"

definition FileChecksum :: "world \<Rightarrow> string \<Rightarrow> (string + Checksum) \<times> world" where
  "FileChecksum w fileName =
     (case fs w fileName of
        None \<Rightarrow> (Inl (''failed to open file '' @ fileName), w)
      | Some bs \<Rightarrow>
          (case invoke w (ReqRead fileName) of
             (Some err, w1) \<Rightarrow> (Inl (''failed to calculate checksum for '' @ fileName), w1)
           | (None, w1) \<Rightarrow>
               (Inr \<lparr>Checksum_Type = ChecksumTypeSHA256,
                     Checksum_Sum = EncodeToString (sha256 (cfg w1) bs)\<rparr>, w1)))"

definition DownloadURL :: "world \<Rightarrow> string \<Rightarrow> (string + byte list) \<times> world" where
  "DownloadURL w fileUrl =
     (case invoke w (ReqHTTPGet fileUrl) of
        (Some err, w1) \<Rightarrow> (Inl err, w1)
      | (None, w1) \<Rightarrow>
          (case web (cfg w1) fileUrl of
             None \<Rightarrow> (Inl ''HTTP response returned non 200 status'', w1)
           | Some body \<Rightarrow> (Inr body, w1)))"

text \<open>
  Modelled from the spec: \<^verbatim>\<open>utils.GetTempDir\<close> is not among the sources; it names
  a scratch directory of the operation (section 5: per operation, isolated by unique
  generated names) or fails.
\<close>

definition GetTempDir :: "world \<Rightarrow> (string + string) \<times> world" where
  "GetTempDir w =
     (case invoke w ReqGetTempDir of
        (Some err, w1) \<Rightarrow> (Inl err, w1)
      | (None, w1) \<Rightarrow> (Inr (TempDir (cfg w1) (tick w)), w1))"

definition WriteArchiveToFile :: "world \<Rightarrow> string \<Rightarrow> byte list \<Rightarrow> (string + unit) \<times> world" where
  "WriteArchiveToFile w fileName reader =
     (case GetTempDir w of
        (Inl err, w1) \<Rightarrow> (Inl err, w1)
      | (Inr tmpDir, w1) \<Rightarrow>
          let path = Join tmpDir (fileName @ ''.tmp'') in
          (case invoke w1 (ReqCreate path) of
             (Some err, w2) \<Rightarrow> (Inl err, w2)
           | (None, w2) \<Rightarrow>
               (case invoke (w2\<lparr>fs := (fs w2)(path \<mapsto> [])\<rparr>) (ReqCopy path) of
                  (Some err, w3) \<Rightarrow> (Inl err, w3)
                | (None, w3) \<Rightarrow>
                    (case invoke (w3\<lparr>fs := (fs w3)(path \<mapsto> reader)\<rparr>) (ReqChmod path) of
                       (Some err, w4) \<Rightarrow> (Inl err, w4)
                     | (None, w4) \<Rightarrow>
                         (case invoke w4 (ReqRename path fileName) of
                            (Some err, w5) \<Rightarrow> (Inl err, w5)
                          | (None, w5) \<Rightarrow>
                              (Inr (),
                               w5\<lparr>fs := ((fs w5)(path := None))(fileName \<mapsto> reader)\<rparr>))))))"

definition DownloadToTempFile :: "world \<Rightarrow> string \<Rightarrow> (failure + string) \<times> world" where
  "DownloadToTempFile w fileUrl =
     (case CheckErr (''download from url: '' @ fileUrl) (DownloadURL w fileUrl) of
        (Inl e, w1) \<Rightarrow> (Inl e, w1)
      | (Inr reader, w1) \<Rightarrow>
          (case CheckErr ''create temp directory'' (GetTempDir w1) of
             (Inl e, w2) \<Rightarrow> (Inl e, w2)
           | (Inr tmpDir, w2) \<Rightarrow>
               (case draw w2 of
                  (t, w3) \<Rightarrow>
                    let tmpFilename = uuidV4 (cfg w3) t;
                        destination = Join tmpDir tmpFilename
                    in
                    (case CheckErr ''create temp directory''
                            (case invoke w3 (ReqMkdir tmpDir) of
                               (Some err, w4) \<Rightarrow> (Inl err, w4)
                             | (None, w4) \<Rightarrow> (Inr (), w4)) of
                       (Inl e, w4) \<Rightarrow> (Inl e, w4)
                     | (Inr u, w4) \<Rightarrow>
                         (case CheckErr ''write archive to file''
                                 (WriteArchiveToFile w4 destination reader) of
                            (Inl e, w5) \<Rightarrow> (Inl e, w5)
                          | (Inr u', w5) \<Rightarrow> (Inr destination, w5))))))"

text \<open>
  \<open>UploadArchive\<close> first replaces a URL by the temporary file it has downloaded it
  to; \<open>UploadArchive_store\<close> is the rest of its body, on the file name it then has.
\<close>

definition UploadArchive_store :: "world \<Rightarrow> string \<Rightarrow> (failure + Archive) \<times> world" where
  "UploadArchive_store w fileName =
     (case FileSize w fileName of
        (Inl e, w2) \<Rightarrow> (Inl e, w2)
      | (Inr sz, w2) \<Rightarrow>
          if sz < ArchiveLiteralSizeLimit (cfg w2) then
            (case GetContents w2 fileName of
               (Inl e, w3) \<Rightarrow> (Inl e, w3)
             | (Inr contents, w3) \<Rightarrow>
                 (Inr (zeroArchive\<lparr>Archive_Type := ArchiveTypeLiteral,
                         Archive_Literal := contents\<rparr>), w3))
          else
            let u = TrimSuffix (Url (cfg w2)) ''/'' @ ''/proxy/storage'' in
            (case CheckErr (''upload file '' @ fileName) (Upload w2 u fileName) of
               (Inl e, w3) \<Rightarrow> (Inl e, w3)
             | (Inr id', w3) \<Rightarrow>
                 (case CheckErr ''get fission storage service name''
                         (GetSvcURL w3 ''application=fission-storage'') of
                    (Inl e, w4) \<Rightarrow> (Inl e, w4)
                  | (Inr storageSvc, w4) \<Rightarrow>
                      let storageSvcURL = ''http://'' @ storageSvc;
                          archiveURL = GetUrl (cfg w4) storageSvcURL id'
                      in
                      (case CheckErr (''calculate checksum for file '' @ fileName)
                              (FileChecksum w4 fileName) of
                         (Inl e, w5) \<Rightarrow> (Inl e, w5)
                       | (Inr csum, w5) \<Rightarrow>
                           (Inr (zeroArchive\<lparr>Archive_Type := ArchiveTypeUrl,
                                   Archive_URL := archiveURL,
                                   Archive_Checksum := csum\<rparr>), w5)))))"

definition UploadArchive :: "world \<Rightarrow> string \<Rightarrow> (failure + Archive) \<times> world" where
  "UploadArchive w fileName =
     (if isHTTP fileName then
        (case DownloadToTempFile w fileName of
           (Inl e, w1) \<Rightarrow> (Inl e, w1)
         | (Inr fileName', w1) \<Rightarrow> UploadArchive_store w1 fileName')
      else UploadArchive_store w fileName)"

section \<open>Package commands (the package file of the CLI)\<close>

text \<open>The flags of \<^verbatim>\<open>fission package ...\<close> that the commands read from the context.\<close>

record flags =
  flag_name :: string
  flag_pkgNamespace :: string
  flag_f :: bool
  flag_env :: string
  flag_envNamespace :: string
  flag_src :: "string list"
  flag_deploy :: "string list"
  flag_buildcmd :: string
  flag_orphan :: bool

definition Println :: "world \<Rightarrow> string \<Rightarrow> world" where
  "Println w line = w\<lparr>stdout := stdout w @ [line]\<rparr>"

text \<open>
  \<^verbatim>\<open>util.CheckErr\<close> applied to the error of a function of this file, which may itself
  have terminated the process already.
\<close>

definition CheckErrOf :: "string \<Rightarrow> (failure + 'a) \<times> world \<Rightarrow> (failure + 'a) \<times> world" where
  "CheckErrOf msg r =
     (case r of
        (Inl (Returned err), w) \<Rightarrow> (Inl (CheckErrFatal msg err), w)
      | (Inl e, w) \<Rightarrow> (Inl e, w)
      | (Inr x, w) \<Rightarrow> (Inr x, w))"

definition getFunctionsByPackage ::
  "world \<Rightarrow> string \<Rightarrow> string \<Rightarrow> (string + Function list) \<times> world" where
  "getFunctionsByPackage w pkgName pkgNamespace =
     (case FunctionList w pkgNamespace of
        (Inl err, w1) \<Rightarrow> (Inl err, w1)
      | (Inr fnList, w1) \<Rightarrow>
          (Inr (filter (\<lambda>fn. Ref_Name (Fn_PackageRef fn) = pkgName) fnList), w1))"

definition archiveName :: "world \<Rightarrow> string \<Rightarrow> string list \<Rightarrow> string \<times> world" where
  "archiveName w givenNameHint includedFiles =
     (case draw w of
        (t, w1) \<Rightarrow>
          if length givenNameHint > 0 then (givenNameHint @ ''-'' @ uniuri (cfg w1) t 4, w1)
          else
            (case includedFiles of
               [] \<Rightarrow> (uniuri (cfg w1) t 8, w1)
             | first # others \<Rightarrow> (KubifyName (cfg w1) first @ ''-'' @ uniuri (cfg w1) t 4, w1)))"

text \<open>
  Modelled from the spec: \<^verbatim>\<open>utils.MakeArchive\<close> is not among the sources; it writes
  a new archive of the inputs to a scratch location and returns its path, or fails.
\<close>

definition MakeArchive :: "world \<Rightarrow> string \<Rightarrow> string list \<Rightarrow> (string + string) \<times> world" where
  "MakeArchive w targetName globs =
     (case invoke w (ReqMakeArchive targetName globs) of
        (Some err, w1) \<Rightarrow> (Inl err, w1)
      | (None, w1) \<Rightarrow>
          (case MakeArchiveBytes (cfg w1) (fs w1) targetName globs of
             (archivePath, bs) \<Rightarrow> (Inr archivePath, w1\<lparr>fs := (fs w1)(archivePath \<mapsto> bs)\<rparr>)))"

text \<open>
  The first part of \<open>makeArchiveFileIfNeeded\<close> returns early with the single input
  file (\<open>Some\<close>) or falls through to the construction of a new archive (\<open>None\<close>).
\<close>

definition makeArchiveFileIfNeeded ::
  "world \<Rightarrow> string \<Rightarrow> string list \<Rightarrow> bool \<Rightarrow> (failure + string) \<times> world" where
  "makeArchiveFileIfNeeded w archiveNameHint archiveInput noZip =
     (case archiveName w archiveNameHint archiveInput of
        (archiveName', w1) \<Rightarrow>
          (case CheckErr ''finding all globs'' (FindAllGlobs (cfg w1) (fs w1) archiveInput, w1) of
             (Inl e, w2) \<Rightarrow> (Inl e, w2)
           | (Inr files, w2) \<Rightarrow>
               (case
                  (case files of
                     [file] \<Rightarrow>
                       (case CheckErr (''open input file '' @ file) (Stat w2 file) of
                          (Inl e, w3) \<Rightarrow> (Inl e, w3)
                        | (Inr info, w3) \<Rightarrow>
                            if ZipMatch (cfg w3) (fs w3) file \<or> noZip then (Inr (Some file), w3)
                            else if isHTTP file then (Inr (Some file), w3)
                            else (Inr None, w3))
                   | _ \<Rightarrow> (Inr None, w2))
                of
                  (Inl e, w3) \<Rightarrow> (Inl e, w3)
                | (Inr (Some file), w3) \<Rightarrow> (Inr file, w3)
                | (Inr None, w3) \<Rightarrow>
                    (case CheckErr ''create temporary archive directory'' (GetTempDir w3) of
                       (Inl e, w4) \<Rightarrow> (Inl e, w4)
                     | (Inr tmpDir, w4) \<Rightarrow>
                         CheckErr ''create archive file''
                           (MakeArchive w4 (Join tmpDir archiveName') archiveInput)))))"

text \<open>
  Modelled from the spec: the declarative artifact registry (package \<^verbatim>\<open>spec\<close>) is
  not among the sources.  Section 6: \<open>exists(description) -> Optional<existingName>\<close>
  and \<open>save(description)\<close>; section 4.1: a description exists when one with the same
  glob set was recorded before.
\<close>

definition ReadSpecs :: "world \<Rightarrow> string \<Rightarrow> (string + ArchiveUploadSpec list) \<times> world" where
  "ReadSpecs w specDir =
     (case invoke w (ReqReadSpecs specDir) of
        (Some err, w1) \<Rightarrow> (Inl err, w1)
      | (None, w1) \<Rightarrow> (Inr (registry w1), w1))"

definition SpecExists :: "ArchiveUploadSpec list \<Rightarrow> ArchiveUploadSpec \<Rightarrow> ArchiveUploadSpec option" where
  "SpecExists fr aus = find (\<lambda>m. Aus_IncludeGlobs m = Aus_IncludeGlobs aus) fr"

definition SpecSave :: "world \<Rightarrow> ArchiveUploadSpec \<Rightarrow> string \<Rightarrow> (string + unit) \<times> world" where
  "SpecSave w aus specFile =
     (case invoke w (ReqSpecSave specFile) of
        (Some err, w1) \<Rightarrow> (Inl err, w1)
      | (None, w1) \<Rightarrow> (Inr (), w1\<lparr>registry := registry w1 @ [aus]\<rparr>))"

text \<open>
  The first loop of \<open>createArchive\<close>: the messages of the inputs that match no file.
  An input that starts with \<^verbatim>\<open>http://\<close> or \<^verbatim>\<open>https://\<close> is skipped.
\<close>

fun createArchive_check ::
  "world \<Rightarrow> string list \<Rightarrow> string list \<Rightarrow> (failure + string list) \<times> world" where
  "createArchive_check w [] errs = (Inr errs, w)"
| "createArchive_check w (path # rest) errs =
     (if isHTTP path then createArchive_check w rest errs
      else
        (case CheckErr ''finding all globs'' (FindAllGlobs (cfg w) (fs w) [path], w) of
           (Inl e, w1) \<Rightarrow> (Inl e, w1)
         | (Inr files, w1) \<Rightarrow>
             if length files = 0 then
               createArchive_check w1 rest
                 (errs @ [''Error finding any files with path '' @ [CHR 0x22] @ path @ [CHR 0x22]])
             else createArchive_check w1 rest errs))"

text \<open>The text of a \<^verbatim>\<open>multierror.Error\<close>: every message, one per line.\<close>

definition multierrorText :: "string list \<Rightarrow> string" where
  "multierrorText errs = concat (map (\<lambda>e. ''* '' @ e @ [CHR 0x0A]) errs)"

definition createArchive ::
  "world \<Rightarrow> string list \<Rightarrow> bool \<Rightarrow> string \<Rightarrow> string \<Rightarrow> (failure + Archive) \<times> world" where
  "createArchive w includeFiles noZip specDir specFile =
     (case createArchive_check w includeFiles [] of
        (Inl e, w1) \<Rightarrow> (Inl e, w1)
      | (Inr errs, w1) \<Rightarrow>
          if errs \<noteq> [] then (Inl (LogFatal (multierrorText errs)), w1)
          else if length specFile > 0 then
            (case archiveName w1 [] includeFiles of
               (name', w2) \<Rightarrow>
                 let aus = \<lparr>Aus_Name = name', Aus_IncludeGlobs = includeFiles\<rparr> in
                 (case CheckErr ''read specs'' (ReadSpecs w2 specDir) of
                    (Inl e, w3) \<Rightarrow> (Inl e, w3)
                  | (Inr fr, w3) \<Rightarrow>
                      (case
                         (case SpecExists fr aus of
                            Some m \<Rightarrow>
                              (Inr (aus\<lparr>Aus_Name := Aus_Name m\<rparr>),
                               Println w3 (''Re-using previously created archive '' @ Aus_Name m))
                          | None \<Rightarrow>
                              (case CheckErr (''write spec file '' @ specFile)
                                      (SpecSave w3 aus specFile) of
                                 (Inl e, w4) \<Rightarrow> (Inl e, w4)
                               | (Inr u, w4) \<Rightarrow> (Inr aus, w4)))
                       of
                         (Inl e, w4) \<Rightarrow> (Inl e, w4)
                       | (Inr aus', w4) \<Rightarrow>
                           (Inr (zeroArchive\<lparr>Archive_Type := ArchiveTypeUrl,
                                   Archive_URL := ARCHIVE_URL_PREFIX (cfg w4) @ Aus_Name aus'\<rparr>),
                            w4))))
          else
            (case makeArchiveFileIfNeeded w1 [] includeFiles noZip of
               (Inl e, w2) \<Rightarrow> (Inl e, w2)
             | (Inr archivePath, w2) \<Rightarrow> UploadArchive w2 archivePath))"

text \<open>
  \<open>updatePackage\<close> works on the package through a pointer: the package it has
  modified is returned beside the metadata of the update, as the caller sees it.
  \<open>updatePackage_spec\<close> is the first part of its body, the three fields it writes
  without a call, with the value \<open>needToBuild\<close> has after them.
\<close>

definition updatePackage_spec :: "Package \<Rightarrow> string \<Rightarrow> string \<Rightarrow> string \<Rightarrow> Package \<times> bool" where
  "updatePackage_spec pkg envName envNamespace buildcmd =
     (let needToBuild0 = False;
          (pkg1, needToBuild1) =
            (if length envName > 0 then
               (pkg\<lparr>Pkg_Spec := (Pkg_Spec pkg)\<lparr>Spec_Environment :=
                       (Spec_Environment (Pkg_Spec pkg))\<lparr>Env_Name := envName\<rparr>\<rparr>\<rparr>, True)
             else (pkg, needToBuild0));
          (pkg2, needToBuild2) =
            (if length envNamespace > 0 then
               (pkg1\<lparr>Pkg_Spec := (Pkg_Spec pkg1)\<lparr>Spec_Environment :=
                       (Spec_Environment (Pkg_Spec pkg1))\<lparr>Env_Namespace := envNamespace\<rparr>\<rparr>\<rparr>, True)
             else (pkg1, needToBuild1));
          (pkg3, needToBuild3) =
            (if length buildcmd > 0 then
               (pkg2\<lparr>Pkg_Spec := (Pkg_Spec pkg2)\<lparr>Spec_BuildCommand := buildcmd\<rparr>\<rparr>, True)
             else (pkg2, needToBuild2))
      in (pkg3, needToBuild3))"

text \<open>
  The rest of the body in its three steps: the source archive, the deployment archive
  (which resets \<open>needToBuild\<close>), and the status with the write to the store.
\<close>

definition updatePackage_source ::
  "world \<Rightarrow> Package \<Rightarrow> bool \<Rightarrow> string list \<Rightarrow> (failure + Package \<times> bool) \<times> world" where
  "updatePackage_source w pkg needToBuild srcArchiveFiles =
     (if length srcArchiveFiles > 0 then
        (case createArchive w srcArchiveFiles False [] [] of
           (Inl e, w1) \<Rightarrow> (Inl e, w1)
         | (Inr srcArchiveMetadata, w1) \<Rightarrow>
             (Inr (pkg\<lparr>Pkg_Spec := (Pkg_Spec pkg)\<lparr>Spec_Source := srcArchiveMetadata\<rparr>\<rparr>,
                   True), w1))
      else (Inr (pkg, needToBuild), w))"

definition updatePackage_deploy ::
  "world \<Rightarrow> Package \<Rightarrow> bool \<Rightarrow> string list \<Rightarrow> bool \<Rightarrow> (failure + Package \<times> bool) \<times> world" where
  "updatePackage_deploy w pkg needToBuild deployArchiveFiles noZip =
     (if length deployArchiveFiles > 0 then
        (case createArchive w deployArchiveFiles noZip [] [] of
           (Inl e, w2) \<Rightarrow> (Inl e, w2)
         | (Inr deployArchiveMetadata, w2) \<Rightarrow>
             (Inr (pkg\<lparr>Pkg_Spec := (Pkg_Spec pkg)\<lparr>Spec_Deployment := deployArchiveMetadata\<rparr>\<rparr>,
                   False), w2))
      else (Inr (pkg, needToBuild), w))"

definition updatePackage_persist ::
  "world \<Rightarrow> Package \<Rightarrow> bool \<Rightarrow> bool \<Rightarrow> (failure + ObjectMeta \<times> Package) \<times> world" where
  "updatePackage_persist w pkg needToBuild forceRebuild =
     (let pkg' =
            (if needToBuild \<or> forceRebuild then
               pkg\<lparr>Pkg_Status := \<lparr>Status_BuildStatus = BuildStatusPending,
                                    Status_BuildLog = []\<rparr>\<rparr>
             else pkg)
      in
      (case CheckErr ''update package'' (PackageUpdate w pkg') of
         (Inl e, w3) \<Rightarrow> (Inl e, w3)
       | (Inr newPkgMeta, w3) \<Rightarrow> (Inr (newPkgMeta, pkg'), w3)))"

definition updatePackage ::
  "world \<Rightarrow> Package \<Rightarrow> string \<Rightarrow> string \<Rightarrow> string list \<Rightarrow> string list \<Rightarrow> string \<Rightarrow> bool \<Rightarrow> bool
     \<Rightarrow> (failure + ObjectMeta \<times> Package) \<times> world" where
  "updatePackage w pkg envName envNamespace srcArchiveFiles deployArchiveFiles buildcmd
       forceRebuild noZip =
     (case updatePackage_spec pkg envName envNamespace buildcmd of
        (pkg3, needToBuild3) \<Rightarrow>
          (case updatePackage_source w pkg3 needToBuild3 srcArchiveFiles of
             (Inl e, w1) \<Rightarrow> (Inl e, w1)
           | (Inr (pkg4, needToBuild4), w1) \<Rightarrow>
               (case updatePackage_deploy w1 pkg4 needToBuild4 deployArchiveFiles noZip of
                  (Inl e, w2) \<Rightarrow> (Inl e, w2)
                | (Inr (pkg5, needToBuild), w2) \<Rightarrow>
                    updatePackage_persist w2 pkg5 needToBuild forceRebuild)))"

text \<open>
  The loop of \<open>pkgUpdate\<close> over the functions that share the package: each gets the
  new resource version of the package and is written back.
\<close>

fun pkgUpdate_functions :: "world \<Rightarrow> Function list \<Rightarrow> nat \<Rightarrow> (failure + unit) \<times> world" where
  "pkgUpdate_functions w [] rv = (Inr (), w)"
| "pkgUpdate_functions w (fn # rest) rv =
     (case CheckErr ''update function''
             (FunctionUpdate w (fn\<lparr>Fn_PackageRef := (Fn_PackageRef fn)\<lparr>Ref_ResourceVersion := rv\<rparr>\<rparr>)) of
        (Inl e, w1) \<Rightarrow> (Inl e, w1)
      | (Inr m, w1) \<Rightarrow> pkgUpdate_functions w1 rest rv)"

definition pkgUpdate :: "world \<Rightarrow> flags \<Rightarrow> (failure + unit) \<times> world" where
  "pkgUpdate w c =
     (let pkgName = flag_name c in
      if length pkgName = 0 then (Inl (LogFatal ''Need --name argument.''), w)
      else
        let pkgNamespace = flag_pkgNamespace c;
            force = flag_f c;
            envName = flag_env c;
            envNamespace = flag_envNamespace c;
            srcArchiveFiles = flag_src c;
            deployArchiveFiles = flag_deploy c;
            buildcmd = flag_buildcmd c
        in
        if length srcArchiveFiles > 0 \<and> length deployArchiveFiles > 0 then
          (Inl (LogFatal ''Need either of --src or --deploy and not both arguments.''), w)
        else if length srcArchiveFiles = 0 \<and> length deployArchiveFiles = 0
                \<and> length envName = 0 \<and> length buildcmd = 0 then
          (Inl (LogFatal ''Need --env or --src or --deploy or --buildcmd argument.''), w)
        else
          (case CheckErr ''get package'' (PackageGet w pkgNamespace pkgName) of
             (Inl e, w1) \<Rightarrow> (Inl e, w1)
           | (Inr pkg, w1) \<Rightarrow>
               let envName' =
                     (if length envName > 0 \<and> envName = Env_Name (Spec_Environment (Pkg_Spec pkg))
                      then [] else envName);
                   envNamespace' =
                     (if envNamespace = Env_Namespace (Spec_Environment (Pkg_Spec pkg))
                      then [] else envNamespace)
               in
               (case CheckErr ''get function list''
                       (getFunctionsByPackage w1 (Meta_Name (Pkg_Metadata pkg))
                          (Meta_Namespace (Pkg_Metadata pkg))) of
                  (Inl e, w2) \<Rightarrow> (Inl e, w2)
                | (Inr fnList, w2) \<Rightarrow>
                    if \<not> force \<and> length fnList > 1 then
                      (Inl (LogFatal
                         ''Package is used by multiple functions, use --force to force update''),
                       w2)
                    else
                      (case updatePackage w2 pkg envName' envNamespace' srcArchiveFiles
                              deployArchiveFiles buildcmd False False of
                         (Inl e, w3) \<Rightarrow> (Inl e, w3)
                       | (Inr (newPkgMeta, pkg'), w3) \<Rightarrow>
                           (case pkgUpdate_functions w3 fnList
                                   (Meta_ResourceVersion newPkgMeta) of
                              (Inl e, w4) \<Rightarrow> (Inl e, w4)
                            | (Inr u, w4) \<Rightarrow>
                                (Inr (),
                                 Println w4
                                   (''Package '' @ [CHR 0x27] @ Meta_Name newPkgMeta @ [CHR 0x27]
                                      @ '' updated'')))))))"

definition deletePackage :: "world \<Rightarrow> string \<Rightarrow> string \<Rightarrow> (string + unit) \<times> world" where
  "deletePackage w pkgName pkgNamespace = PackageDelete w pkgNamespace pkgName"

text \<open>The loop of \<open>deleteOrphanPkgs\<close> over the packages of the namespace.\<close>

fun deleteOrphanPkgs_loop :: "world \<Rightarrow> string \<Rightarrow> Package list \<Rightarrow> (failure + unit) \<times> world" where
  "deleteOrphanPkgs_loop w pkgNamespace [] = (Inr (), w)"
| "deleteOrphanPkgs_loop w pkgNamespace (pkg # rest) =
     (case CheckErr (''get functions sharing package '' @ Meta_Name (Pkg_Metadata pkg))
             (getFunctionsByPackage w (Meta_Name (Pkg_Metadata pkg)) pkgNamespace) of
        (Inl e, w1) \<Rightarrow> (Inl e, w1)
      | (Inr fnList, w1) \<Rightarrow>
          if length fnList = 0 then
            (case deletePackage w1 (Meta_Name (Pkg_Metadata pkg)) pkgNamespace of
               (Inl err, w2) \<Rightarrow> (Inl (Returned err), w2)
             | (Inr u, w2) \<Rightarrow> deleteOrphanPkgs_loop w2 pkgNamespace rest)
          else deleteOrphanPkgs_loop w1 pkgNamespace rest)"

definition deleteOrphanPkgs :: "world \<Rightarrow> string \<Rightarrow> (failure + unit) \<times> world" where
  "deleteOrphanPkgs w pkgNamespace =
     (case PackageList w pkgNamespace of
        (Inl err, w1) \<Rightarrow> (Inl (Returned err), w1)
      | (Inr pkgList, w1) \<Rightarrow> deleteOrphanPkgs_loop w1 pkgNamespace pkgList)"

definition pkgDelete :: "world \<Rightarrow> flags \<Rightarrow> (failure + unit) \<times> world" where
  "pkgDelete w c =
     (let pkgName = flag_name c;
          pkgNamespace = flag_pkgNamespace c;
          deleteOrphans = flag_orphan c
      in
      if length pkgName = 0 \<and> \<not> deleteOrphans then
        (Inr (), Println w ''Need --name argument or --orphan flag.'')
      else if length pkgName \<noteq> 0 \<and> deleteOrphans then
        (Inr (), Println w ''Need either --name argument or --orphan flag'')
      else if length pkgName \<noteq> 0 then
        let force = flag_f c in
        (case CheckErr ''find package'' (PackageGet w pkgNamespace pkgName) of
           (Inl e, w1) \<Rightarrow> (Inl e, w1)
         | (Inr found, w1) \<Rightarrow>
             (case getFunctionsByPackage w1 pkgName pkgNamespace of
                (Inl err, w2) \<Rightarrow> (Inl (Returned err), w2)
              | (Inr fnList, w2) \<Rightarrow>
                  if \<not> force \<and> length fnList > 0 then
                    (Inl (LogFatal
                       ''Package is used by at least one function, use -f to force delete''), w2)
                  else
                    (case deletePackage w2 pkgName pkgNamespace of
                       (Inl err, w3) \<Rightarrow> (Inl (Returned err), w3)
                     | (Inr u, w3) \<Rightarrow>
                         (Inr (),
                          Println w3
                            (''Package '' @ [CHR 0x27] @ pkgName @ [CHR 0x27] @ '' deleted'')))))
      else
        (case CheckErrOf ''error deleting orphan packages'' (deleteOrphanPkgs w pkgNamespace) of
           (Inl e, w1) \<Rightarrow> (Inl e, w1)
         | (Inr u, w1) \<Rightarrow> (Inr (), Println w1 ''Orphan packages deleted'')))"

definition pkgRebuild :: "world \<Rightarrow> flags \<Rightarrow> (failure + unit) \<times> world" where
  "pkgRebuild w c =
     (let pkgName = flag_name c in
      if length pkgName = 0 then (Inl (LogFatal ''Need name of package, use --name''), w)
      else
        let pkgNamespace = flag_pkgNamespace c in
        (case CheckErr ''find package'' (PackageGet w pkgNamespace pkgName) of
           (Inl e, w1) \<Rightarrow> (Inl e, w1)
         | (Inr pkg, w1) \<Rightarrow>
             if Status_BuildStatus (Pkg_Status pkg) \<noteq> BuildStatusFailed then
               (Inl (LogFatal (''Package '' @ Meta_Name (Pkg_Metadata pkg)
                               @ '' is not in failed state.'')), w1)
             else
               (case updatePackage w1 pkg [] [] [] [] [] True False of
                  (Inl e, w2) \<Rightarrow> (Inl e, w2)
                | (Inr (newPkgMeta, pkg'), w2) \<Rightarrow>
                    (Inr (),
                     Println w2
                       (''Retrying build for pkg '' @ Meta_Name (Pkg_Metadata pkg')
                        @ ''. Use '' @ [CHR 0x22] @ ''fission pkg info --name ''
                        @ Meta_Name (Pkg_Metadata pkg') @ [CHR 0x22] @ '' to view status.'')))))"

section \<open>Observations\<close>

text \<open>
  What a theorem reads off a run: the value a command returned, if it returned one, and
  the package or function that the control plane holds under a namespace and a name.
\<close>

definition resultOf :: "('e + 'a) \<times> world \<Rightarrow> 'a option" where
  "resultOf r = (case fst r of Inl e \<Rightarrow> None | Inr x \<Rightarrow> Some x)"

definition failureOf :: "('e + 'a) \<times> world \<Rightarrow> 'e option" where
  "failureOf r = (case fst r of Inl e \<Rightarrow> Some e | Inr x \<Rightarrow> None)"

definition storedPackage :: "world \<Rightarrow> string \<Rightarrow> string \<Rightarrow> Package option" where
  "storedPackage w ns n = find (\<lambda>p. pkgKey p = (ns, n)) (packageStore w)"

definition storedFunction :: "world \<Rightarrow> string \<Rightarrow> string \<Rightarrow> Function option" where
  "storedFunction w ns n = find (\<lambda>fn. fnKey fn = (ns, n)) (functionStore w)"

definition storedStatus :: "world \<Rightarrow> string \<Rightarrow> string \<Rightarrow> BuildStatus option" where
  "storedStatus w ns n =
     map_option (\<lambda>p. Status_BuildStatus (Pkg_Status p)) (storedPackage w ns n)"

text \<open>
  The functions that refer to a package, in the words of section 4.5 of the specification:
  the functions of the namespace, filtered by exact match of the package name.
\<close>

definition functionsReferencing :: "world \<Rightarrow> string \<Rightarrow> string \<Rightarrow> Function list" where
  "functionsReferencing w pkgName pkgNamespace =
     filter (\<lambda>fn. Ref_Name (Fn_PackageRef fn) = pkgName)
       (filter (\<lambda>fn. Meta_Namespace (Fn_Metadata fn) = pkgNamespace) (functionStore w))"

text \<open>
  The orphan packages of a namespace, in the words of the glossary: the packages of the
  namespace that no function refers to; and the deletions of packages that a trace
  holds, in the order they were requested.
\<close>

definition orphanPackages :: "world \<Rightarrow> string \<Rightarrow> Package list" where
  "orphanPackages w pkgNamespace =
     filter (\<lambda>p. functionsReferencing w (Meta_Name (Pkg_Metadata p)) pkgNamespace = [])
       (filter (\<lambda>p. Meta_Namespace (Pkg_Metadata p) = pkgNamespace) (packageStore w))"

fun deleteRequests :: "request list \<Rightarrow> (string \<times> string) list" where
  "deleteRequests [] = []"
| "deleteRequests (ReqPackageDelete ns n # rs) = (ns, n) # deleteRequests rs"
| "deleteRequests (r # rs) = deleteRequests rs"

definition nameKey :: "string \<Rightarrow> Package \<Rightarrow> string \<times> string" where
  "nameKey ns p = (ns, Meta_Name (Pkg_Metadata p))"

text \<open>
  The writes of functions that a trace holds, in the order they were requested, the
  resource version of a stored package, and the resource version of its package that a
  stored function refers to.
\<close>

fun updateRequests :: "request list \<Rightarrow> (string \<times> string) list" where
  "updateRequests [] = []"
| "updateRequests (ReqFunctionUpdate ns n # rs) = (ns, n) # updateRequests rs"
| "updateRequests (r # rs) = updateRequests rs"

definition storedVersion :: "world \<Rightarrow> string \<Rightarrow> string \<Rightarrow> nat option" where
  "storedVersion w ns n =
     map_option (\<lambda>p. Meta_ResourceVersion (Pkg_Metadata p)) (storedPackage w ns n)"

definition storedRefVersion :: "world \<Rightarrow> string \<Rightarrow> string \<Rightarrow> nat option" where
  "storedRefVersion w ns n =
     map_option (\<lambda>fn. Ref_ResourceVersion (Fn_PackageRef fn)) (storedFunction w ns n)"

section \<open>An example world\<close>

text \<open>
  A concrete run to evaluate the commands on: no request is refused, the literal size
  limit is 256 KiB, a glob matches the file of its own name, a file is a zip archive
  when it starts with the bytes \<open>PK\<close>, and \<open>sha256\<close> is a stand-in (the length of
  the input as one byte) since the theorems hold for any digest function.  The store holds
  the package \<open>hello\<close>, in the build status given, the package \<open>spare\<close> that no
  function refers to, and two functions on \<open>hello\<close>.
\<close>

definition exampleConfig :: config where
  "exampleConfig =
     \<lparr>Url = ''http://127.0.0.1:8888/'',
      faults = (\<lambda>t r. None),
      web = (\<lambda>u. if u = ''https://example.com/fn.zip'' then Some [1, 2, 3] else None),
      ArchiveLiteralSizeLimit = 262144,
      sha256 = (\<lambda>bs. [of_nat (length bs)]),
      FindAllGlobs = (\<lambda>files gs. Inr (filter (\<lambda>g. files g \<noteq> None) gs)),
      ZipMatch = (\<lambda>files p. case files p of Some (a # b # rest) \<Rightarrow> a = 0x50 \<and> b = 0x4B | _ \<Rightarrow> False),
      MakeArchiveBytes = (\<lambda>files target gs. (target, [0x50, 0x4B, 5, 6])),
      TempDir = (\<lambda>t. ''/tmp/fission''),
      uniuri = (\<lambda>t n. replicate n (CHR ''x'')),
      uuidV4 = (\<lambda>t. ''uuid''),
      KubifyName = (\<lambda>n. n),
      SvcURL = (\<lambda>label. ''storagesvc.fission''),
      UploadId = (\<lambda>t. ''blob''),
      GetUrl = (\<lambda>base i. base @ ''/v1/archive?id='' @ i),
      ARCHIVE_URL_PREFIX = ''archive://''\<rparr>"

definition examplePackage :: "string \<Rightarrow> BuildStatus \<Rightarrow> Package" where
  "examplePackage n st =
     \<lparr>Pkg_Metadata = \<lparr>Meta_Name = n, Meta_Namespace = ''default'', Meta_ResourceVersion = 1\<rparr>,
      Pkg_Spec = \<lparr>Spec_Environment = \<lparr>Env_Namespace = ''default'', Env_Name = ''python''\<rparr>,
                  Spec_Source = zeroArchive, Spec_Deployment = zeroArchive,
                  Spec_BuildCommand = []\<rparr>,
      Pkg_Status = \<lparr>Status_BuildStatus = st, Status_BuildLog = ''log''\<rparr>\<rparr>"

definition exampleFunction :: "string \<Rightarrow> string \<Rightarrow> Function" where
  "exampleFunction n p =
     \<lparr>Fn_Metadata = \<lparr>Meta_Name = n, Meta_Namespace = ''default'', Meta_ResourceVersion = 2\<rparr>,
      Fn_PackageRef = \<lparr>Ref_Namespace = ''default'', Ref_Name = p, Ref_ResourceVersion = 1\<rparr>\<rparr>"

definition exampleWorld :: "BuildStatus \<Rightarrow> world" where
  "exampleWorld st =
     \<lparr>cfg = exampleConfig,
      packageStore = [examplePackage ''hello'' st, examplePackage ''spare'' BuildStatusSucceeded],
      functionStore = [exampleFunction ''f1'' ''hello'', exampleFunction ''f2'' ''hello''],
      nextVersion = 10,
      fs = [''fn.zip'' \<mapsto> [0x50, 0x4B, 3, 4], ''big.zip'' \<mapsto> replicate 262144 0],
      blobs = [],
      registry = [],
      stdout = [],
      trace = [],
      tick = 0\<rparr>"

definition exampleFlags :: flags where
  "exampleFlags =
     \<lparr>flag_name = ''hello'', flag_pkgNamespace = ''default'', flag_f = False, flag_env = [],
      flag_envNamespace = [], flag_src = [], flag_deploy = [], flag_buildcmd = [],
      flag_orphan = False\<rparr>"

text \<open>
  The example world with one request refused whenever it is made, and the world of a
  sweep in which the deletion of the first of two orphan packages is refused.
\<close>

definition refusing :: "request \<Rightarrow> world \<Rightarrow> world" where
  "refusing r w =
     w\<lparr>cfg := (cfg w)\<lparr>faults := (\<lambda>t q. if q = r then Some ''refused'' else None)\<rparr>\<rparr>"

definition sweepWorld :: world where
  "sweepWorld =
     refusing (ReqPackageDelete ''default'' ''spare'')
       ((exampleWorld BuildStatusSucceeded)
          \<lparr>packageStore := [examplePackage ''hello'' BuildStatusSucceeded,
                            examplePackage ''spare'' BuildStatusSucceeded,
                            examplePackage ''extra'' BuildStatusSucceeded]\<rparr>)"

text \<open>The flags of a forced update of \<open>hello\<close> to the environment \<open>nodejs\<close>.\<close>

definition fanoutFlags :: flags where
  "fanoutFlags = exampleFlags\<lparr>flag_f := True, flag_env := ''nodejs''\<rparr>"

text \<open>
  The example world with, beside \<open>f1\<close>, a function \<open>g\<close> of the namespace
  \<open>other\<close> that refers to the package \<open>hello\<close> of the namespace
  \<open>default\<close>, and a function \<open>h\<close> of the namespace \<open>default\<close> that
  refers to a package \<open>hello\<close> of the namespace \<open>other\<close>.
\<close>

definition crossWorld :: world where
  "crossWorld =
     (exampleWorld BuildStatusSucceeded)
       \<lparr>functionStore :=
          [exampleFunction ''f1'' ''hello'',
           (exampleFunction ''g'' ''hello'')
             \<lparr>Fn_Metadata := \<lparr>Meta_Name = ''g'', Meta_Namespace = ''other'',
                               Meta_ResourceVersion = 2\<rparr>\<rparr>,
           (exampleFunction ''h'' ''hello'')
             \<lparr>Fn_PackageRef := \<lparr>Ref_Namespace = ''other'', Ref_Name = ''hello'',
                                 Ref_ResourceVersion = 1\<rparr>\<rparr>]\<rparr>"



section \<open>Archive transport: literal below the limit, upload and checksum otherwise\<close>

lemma UploadArchive_store_literal:
  assumes "fs w fileName = Some bs" "int (length bs) < ArchiveLiteralSizeLimit (cfg w)"
  shows "UploadArchive_store w fileName =
     (Inr (zeroArchive\<lparr>Archive_Type := ArchiveTypeLiteral, Archive_Literal := bs\<rparr>), w)"
  using assms
  by (simp add: UploadArchive_store_def FileSize_def GetContents_def Stat_def ReadFile_def
      CheckErr_def)

lemma UploadArchive_store_url:
  assumes "fs w fileName = Some bs" "\<not> int (length bs) < ArchiveLiteralSizeLimit (cfg w)"
    and "UploadArchive_store w fileName = (Inr ar, w')"
  shows "Archive_Type ar = ArchiveTypeUrl \<and>
         Archive_Checksum ar = \<lparr>Checksum_Type = ChecksumTypeSHA256,
            Checksum_Sum = EncodeToString (sha256 (cfg w) bs)\<rparr> \<and>
         ReqUpload (TrimSuffix (Url (cfg w)) ''/'' @ ''/proxy/storage'') fileName
           \<in> set (trace w')"
  using assms
  by (auto simp add: UploadArchive_store_def FileSize_def Stat_def CheckErr_def Upload_def
      GetSvcURL_def FileChecksum_def invoke_def Let_def zeroArchive_def
      split: option.splits sum.splits prod.splits if_splits)

lemma UploadArchive_store_url_ok:
  assumes "fs w fileName = Some bs" "\<not> int (length bs) < ArchiveLiteralSizeLimit (cfg w)"
    and "faults (cfg w) (tick w)
           (ReqUpload (TrimSuffix (Url (cfg w)) ''/'' @ ''/proxy/storage'') fileName) = None"
    and "faults (cfg w) (tick w + 1) (ReqGetSvcURL ''application=fission-storage'') = None"
    and "faults (cfg w) (tick w + 2) (ReqRead fileName) = None"
  shows "UploadArchive_store w fileName =
    (Inr (zeroArchive\<lparr>Archive_Type := ArchiveTypeUrl,
            Archive_URL := GetUrl (cfg w)
               (''http://'' @ SvcURL (cfg w) ''application=fission-storage'')
               (UploadId (cfg w) (tick w)),
            Archive_Checksum := \<lparr>Checksum_Type = ChecksumTypeSHA256,
               Checksum_Sum = EncodeToString (sha256 (cfg w) bs)\<rparr>\<rparr>),
     w\<lparr>blobs := blobs w @ [(UploadId (cfg w) (tick w), bs)],
       trace := trace w @
         [ReqUpload (TrimSuffix (Url (cfg w)) ''/'' @ ''/proxy/storage'') fileName,
          ReqGetSvcURL ''application=fission-storage'', ReqRead fileName],
       tick := tick w + 3\<rparr>)"
  using assms
  by (simp add: UploadArchive_store_def FileSize_def Stat_def CheckErr_def Upload_def
      GetSvcURL_def FileChecksum_def invoke_def Let_def)

text \<open>
  C5.  A local archive file (its name is no URL) with the bytes \<open>bs\<close> is stored by
  \<open>UploadArchive\<close> as follows.  When its size is strictly below the literal size limit,
  the result is the archive of kind Literal that holds exactly \<open>bs\<close>, and the world is
  as before: no request was made.  Otherwise every archive it returns is of kind URL and
  carries the SHA-256 checksum, in hexadecimal, of \<open>bs\<close>; and when the upload, the
  lookup of the storage service and the read of the file are not refused it does return
  such an archive, after exactly these three requests.
\<close>

theorem UploadArchive_literal_or_checksummed_url:
  assumes "\<not> isHTTP fileName" and "fs w fileName = Some bs"
  shows "(int (length bs) < ArchiveLiteralSizeLimit (cfg w) \<longrightarrow>
            UploadArchive w fileName =
              (Inr (zeroArchive\<lparr>Archive_Type := ArchiveTypeLiteral, Archive_Literal := bs\<rparr>), w))
       \<and> (\<not> int (length bs) < ArchiveLiteralSizeLimit (cfg w) \<longrightarrow>
            (\<forall>ar w'. UploadArchive w fileName = (Inr ar, w') \<longrightarrow>
               Archive_Type ar = ArchiveTypeUrl \<and>
               Archive_Checksum ar = \<lparr>Checksum_Type = ChecksumTypeSHA256,
                  Checksum_Sum = EncodeToString (sha256 (cfg w) bs)\<rparr>))
       \<and> (\<not> int (length bs) < ArchiveLiteralSizeLimit (cfg w) \<and>
          faults (cfg w) (tick w)
            (ReqUpload (TrimSuffix (Url (cfg w)) ''/'' @ ''/proxy/storage'') fileName) = None \<and>
          faults (cfg w) (tick w + 1) (ReqGetSvcURL ''application=fission-storage'') = None \<and>
          faults (cfg w) (tick w + 2) (ReqRead fileName) = None \<longrightarrow>
            (\<exists>ar. UploadArchive w fileName =
               (Inr ar,
                w\<lparr>blobs := blobs w @ [(UploadId (cfg w) (tick w), bs)],
                  trace := trace w @
                    [ReqUpload (TrimSuffix (Url (cfg w)) ''/'' @ ''/proxy/storage'') fileName,
                     ReqGetSvcURL ''application=fission-storage'', ReqRead fileName],
                  tick := tick w + 3\<rparr>)))"
proof (intro conjI impI allI)
  assume "int (length bs) < ArchiveLiteralSizeLimit (cfg w)"
  with assms show "UploadArchive w fileName =
      (Inr (zeroArchive\<lparr>Archive_Type := ArchiveTypeLiteral, Archive_Literal := bs\<rparr>), w)"
    by (simp add: UploadArchive_def UploadArchive_store_literal)
next
  fix ar w'
  assume big: "\<not> int (length bs) < ArchiveLiteralSizeLimit (cfg w)"
    and "UploadArchive w fileName = (Inr ar, w')"
  with assms have "UploadArchive_store w fileName = (Inr ar, w')"
    by (simp add: UploadArchive_def)
  from UploadArchive_store_url [OF assms(2) big this]
  show "Archive_Type ar = ArchiveTypeUrl" 
    and "Archive_Checksum ar = \<lparr>Checksum_Type = ChecksumTypeSHA256,
                  Checksum_Sum = EncodeToString (sha256 (cfg w) bs)\<rparr>"
    by simp_all
next
  assume "\<not> int (length bs) < ArchiveLiteralSizeLimit (cfg w) \<and>
          faults (cfg w) (tick w)
            (ReqUpload (TrimSuffix (Url (cfg w)) ''/'' @ ''/proxy/storage'') fileName) = None \<and>
          faults (cfg w) (tick w + 1) (ReqGetSvcURL ''application=fission-storage'') = None \<and>
          faults (cfg w) (tick w + 2) (ReqRead fileName) = None"
  with assms show "\<exists>ar. UploadArchive w fileName =
               (Inr ar,
                w\<lparr>blobs := blobs w @ [(UploadId (cfg w) (tick w), bs)],
                  trace := trace w @
                    [ReqUpload (TrimSuffix (Url (cfg w)) ''/'' @ ''/proxy/storage'') fileName,
                     ReqGetSvcURL ''application=fission-storage'', ReqRead fileName],
                  tick := tick w + 3\<rparr>)"
    by (simp add: UploadArchive_def UploadArchive_store_url_ok)
qed

theorem UploadArchive_literal_or_checksummed_url_witness:
  "UploadArchive (exampleWorld BuildStatusSucceeded) ''fn.zip'' =
     (Inr (zeroArchive\<lparr>Archive_Type := ArchiveTypeLiteral,
             Archive_Literal := [0x50, 0x4B, 3, 4]\<rparr>),
      exampleWorld BuildStatusSucceeded)
   \<and> (\<exists>ar w'. UploadArchive (exampleWorld BuildStatusSucceeded) ''big.zip'' = (Inr ar, w')
        \<and> trace w' = [ReqUpload ''http://127.0.0.1:8888/proxy/storage'' ''big.zip'',
                       ReqGetSvcURL ''application=fission-storage'', ReqRead ''big.zip'']
        \<and> Archive_Type ar = ArchiveTypeUrl
        \<and> Archive_Checksum ar =
            \<lparr>Checksum_Type = ChecksumTypeSHA256, Checksum_Sum = ''00''\<rparr>)"
proof -
  have small: "\<not> isHTTP ''fn.zip''"
      "fs (exampleWorld BuildStatusSucceeded) ''fn.zip'' = Some [0x50, 0x4B, 3, 4]"
    by (simp_all add: isHTTP_def HasPrefix_def exampleWorld_def)
  have big: "\<not> isHTTP ''big.zip''"
      "fs (exampleWorld BuildStatusSucceeded) ''big.zip'' = Some (replicate 262144 0)"
    by (simp_all add: isHTTP_def HasPrefix_def exampleWorld_def)
  show ?thesis
    using UploadArchive_literal_or_checksummed_url [OF small]
      UploadArchive_literal_or_checksummed_url [OF big]
    by (auto simp add: exampleWorld_def exampleConfig_def TrimSuffix_def suffix_to_prefix
        hextable_def)
qed

section \<open>The rebuild decision of updatePackage\<close>

lemma find_map_replace:
  assumes "find (\<lambda>q. key q = k) xs = Some old" "key new = k"
  shows "find (\<lambda>q. key q = k) (map (\<lambda>q. if key q = k then new else q) xs) = Some new"
  using assms by (induction xs) (auto split: if_splits)

lemma PackageUpdate_Inr:
  assumes "PackageUpdate w p = (Inr m, w')"
  shows "m = (Pkg_Metadata p)\<lparr>Meta_ResourceVersion := nextVersion w\<rparr>"
    and "storedPackage w' (Meta_Namespace (Pkg_Metadata p)) (Meta_Name (Pkg_Metadata p))
           = Some (p\<lparr>Pkg_Metadata := m\<rparr>)"
    and "functionStore w' = functionStore w"
    and "cfg w' = cfg w"
proof -
  from assms obtain old where
    old: "find (\<lambda>q. pkgKey q = pkgKey p) (packageStore w) = Some old"
    and m: "m = (Pkg_Metadata p)\<lparr>Meta_ResourceVersion := nextVersion w\<rparr>"
    and w': "packageStore w' =
        map (\<lambda>q. if pkgKey q = pkgKey p then p\<lparr>Pkg_Metadata := m\<rparr> else q) (packageStore w)"
      "functionStore w' = functionStore w" "cfg w' = cfg w"
    by (auto simp add: PackageUpdate_def invoke_def Let_def split: option.splits if_splits)
  have "pkgKey (p\<lparr>Pkg_Metadata := m\<rparr>) = pkgKey p"
    by (simp add: pkgKey_def m)
  from find_map_replace [OF old this] w' m
  show "m = (Pkg_Metadata p)\<lparr>Meta_ResourceVersion := nextVersion w\<rparr>"
    and "storedPackage w' (Meta_Namespace (Pkg_Metadata p)) (Meta_Name (Pkg_Metadata p))
           = Some (p\<lparr>Pkg_Metadata := m\<rparr>)"
    and "functionStore w' = functionStore w"
    and "cfg w' = cfg w"
    by (simp_all add: storedPackage_def pkgKey_def)
qed

text \<open>
  What a successful \<open>updatePackage\<close> has done to the package: the status it decided
  on, the fields of the spec it wrote, and the package it had the store accept.
\<close>

lemma updatePackage_spec_eq:
  assumes "updatePackage_spec pkg envName envNamespace buildcmd = (pkg3, n3)"
  shows "n3 = (envName \<noteq> [] \<or> envNamespace \<noteq> [] \<or> buildcmd \<noteq> [])"
    and "Pkg_Status pkg3 = Pkg_Status pkg" "Pkg_Metadata pkg3 = Pkg_Metadata pkg"
    and "Env_Name (Spec_Environment (Pkg_Spec pkg3)) =
           (if envName \<noteq> [] then envName else Env_Name (Spec_Environment (Pkg_Spec pkg)))"
    and "Env_Namespace (Spec_Environment (Pkg_Spec pkg3)) =
           (if envNamespace \<noteq> [] then envNamespace
            else Env_Namespace (Spec_Environment (Pkg_Spec pkg)))"
    and "Spec_BuildCommand (Pkg_Spec pkg3) =
           (if buildcmd \<noteq> [] then buildcmd else Spec_BuildCommand (Pkg_Spec pkg))"
    and "Spec_Source (Pkg_Spec pkg3) = Spec_Source (Pkg_Spec pkg)"
    and "Spec_Deployment (Pkg_Spec pkg3) = Spec_Deployment (Pkg_Spec pkg)"
  using assms by (auto simp add: updatePackage_spec_def Let_def split: if_splits)

lemma updatePackage_source_Inr:
  assumes "updatePackage_source w pkg n src = (Inr (pkg', n'), w')"
  shows "n' = (n \<or> src \<noteq> [])"
    and "Pkg_Status pkg' = Pkg_Status pkg" "Pkg_Metadata pkg' = Pkg_Metadata pkg"
    and "Spec_Environment (Pkg_Spec pkg') = Spec_Environment (Pkg_Spec pkg)"
    and "Spec_BuildCommand (Pkg_Spec pkg') = Spec_BuildCommand (Pkg_Spec pkg)"
    and "Spec_Deployment (Pkg_Spec pkg') = Spec_Deployment (Pkg_Spec pkg)"
    and "src = [] \<Longrightarrow> Spec_Source (Pkg_Spec pkg') = Spec_Source (Pkg_Spec pkg)"
  using assms
  by (auto simp add: updatePackage_source_def split: if_splits prod.splits sum.splits)

lemma updatePackage_deploy_Inr:
  assumes "updatePackage_deploy w pkg n deploy noZip = (Inr (pkg', n'), w')"
  shows "n' = (n \<and> deploy = [])"
    and "Pkg_Status pkg' = Pkg_Status pkg" "Pkg_Metadata pkg' = Pkg_Metadata pkg"
    and "Spec_Environment (Pkg_Spec pkg') = Spec_Environment (Pkg_Spec pkg)"
    and "Spec_BuildCommand (Pkg_Spec pkg') = Spec_BuildCommand (Pkg_Spec pkg)"
    and "Spec_Source (Pkg_Spec pkg') = Spec_Source (Pkg_Spec pkg)"
    and "deploy = [] \<Longrightarrow> Spec_Deployment (Pkg_Spec pkg') = Spec_Deployment (Pkg_Spec pkg)"
  using assms
  by (auto simp add: updatePackage_deploy_def split: if_splits prod.splits sum.splits)

lemma updatePackage_persist_Inr:
  assumes "updatePackage_persist w pkg n forceRebuild = (Inr (m, pkg'), w')"
  shows "PackageUpdate w pkg' = (Inr m, w')"
    and "Pkg_Status pkg' =
           (if n \<or> forceRebuild
            then \<lparr>Status_BuildStatus = BuildStatusPending, Status_BuildLog = []\<rparr>
            else Pkg_Status pkg)"
    and "Pkg_Metadata pkg' = Pkg_Metadata pkg" "Pkg_Spec pkg' = Pkg_Spec pkg"
  using assms
  by (auto simp add: updatePackage_persist_def Let_def CheckErr_def
      split: if_splits prod.splits sum.splits)

lemma updatePackage_steps:
  assumes "updatePackage w pkg envName envNamespace src deploy buildcmd forceRebuild noZip
             = (Inr (m, pkg'), w')"
  obtains pkg3 n3 pkg4 n4 w1 pkg5 n5 w2 where
    "updatePackage_spec pkg envName envNamespace buildcmd = (pkg3, n3)"
    "updatePackage_source w pkg3 n3 src = (Inr (pkg4, n4), w1)"
    "updatePackage_deploy w1 pkg4 n4 deploy noZip = (Inr (pkg5, n5), w2)"
    "updatePackage_persist w2 pkg5 n5 forceRebuild = (Inr (m, pkg'), w')"
  using assms
  by (auto simp add: updatePackage_def split: prod.splits sum.splits)

lemma updatePackage_Inr:
  assumes "updatePackage w pkg envName envNamespace src deploy buildcmd forceRebuild noZip
             = (Inr (m, pkg'), w')"
  shows "(\<exists>w2. PackageUpdate w2 pkg' = (Inr m, w')) \<and>
    Pkg_Status pkg' =
           (if (deploy = [] \<and> (envName \<noteq> [] \<or> envNamespace \<noteq> [] \<or> buildcmd \<noteq> [] \<or> src \<noteq> []))
               \<or> forceRebuild
            then \<lparr>Status_BuildStatus = BuildStatusPending, Status_BuildLog = []\<rparr>
            else Pkg_Status pkg)
    \<and> Pkg_Metadata pkg' = Pkg_Metadata pkg
    \<and> Env_Name (Spec_Environment (Pkg_Spec pkg')) =
           (if envName \<noteq> [] then envName else Env_Name (Spec_Environment (Pkg_Spec pkg)))
    \<and> Env_Namespace (Spec_Environment (Pkg_Spec pkg')) =
           (if envNamespace \<noteq> [] then envNamespace
            else Env_Namespace (Spec_Environment (Pkg_Spec pkg)))
    \<and> Spec_BuildCommand (Pkg_Spec pkg') =
           (if buildcmd \<noteq> [] then buildcmd else Spec_BuildCommand (Pkg_Spec pkg))
    \<and> (src = [] \<longrightarrow> Spec_Source (Pkg_Spec pkg') = Spec_Source (Pkg_Spec pkg))
    \<and> (deploy = [] \<longrightarrow> Spec_Deployment (Pkg_Spec pkg') = Spec_Deployment (Pkg_Spec pkg))"
proof -
  from assms obtain pkg3 n3 pkg4 n4 w1 pkg5 n5 w2 where
    a: "updatePackage_spec pkg envName envNamespace buildcmd = (pkg3, n3)"
    and b: "updatePackage_source w pkg3 n3 src = (Inr (pkg4, n4), w1)"
    and c: "updatePackage_deploy w1 pkg4 n4 deploy noZip = (Inr (pkg5, n5), w2)"
    and d: "updatePackage_persist w2 pkg5 n5 forceRebuild = (Inr (m, pkg'), w')"
    by (rule updatePackage_steps)
  note A = updatePackage_spec_eq [OF a] and B = updatePackage_source_Inr [OF b]
    and C = updatePackage_deploy_Inr [OF c] and D = updatePackage_persist_Inr [OF d]
  have "\<exists>w2. PackageUpdate w2 pkg' = (Inr m, w')"
    using D(1) by blast
  moreover have "Pkg_Status pkg' =
           (if (deploy = [] \<and> (envName \<noteq> [] \<or> envNamespace \<noteq> [] \<or> buildcmd \<noteq> [] \<or> src \<noteq> []))
               \<or> forceRebuild
            then \<lparr>Status_BuildStatus = BuildStatusPending, Status_BuildLog = []\<rparr>
            else Pkg_Status pkg)"
    unfolding D(2) C(1) B(1) A(1) C(2) B(2) A(2) by auto
  moreover have "Pkg_Metadata pkg' = Pkg_Metadata pkg"
    unfolding D(3) C(3) B(3) A(3) ..
  moreover have "Env_Name (Spec_Environment (Pkg_Spec pkg')) =
           (if envName \<noteq> [] then envName else Env_Name (Spec_Environment (Pkg_Spec pkg)))"
    unfolding D(4) C(4) B(4) A(4) ..
  moreover have "Env_Namespace (Spec_Environment (Pkg_Spec pkg')) =
           (if envNamespace \<noteq> [] then envNamespace
            else Env_Namespace (Spec_Environment (Pkg_Spec pkg)))"
    unfolding D(4) C(4) B(4) A(5) ..
  moreover have "Spec_BuildCommand (Pkg_Spec pkg') =
           (if buildcmd \<noteq> [] then buildcmd else Spec_BuildCommand (Pkg_Spec pkg))"
    unfolding D(4) C(5) B(5) A(6) ..
  moreover have "src = [] \<longrightarrow> Spec_Source (Pkg_Spec pkg') = Spec_Source (Pkg_Spec pkg)"
    using B(7) unfolding D(4) C(6) A(7) [symmetric] by blast
  moreover have "deploy = [] \<longrightarrow> Spec_Deployment (Pkg_Spec pkg') = Spec_Deployment (Pkg_Spec pkg)"
    using C(7) unfolding D(4) B(6) [symmetric] A(8) [symmetric] by blast
  ultimately show ?thesis
    by blast
qed

lemma updatePackage_stored:
  assumes "updatePackage w pkg envName envNamespace src deploy buildcmd forceRebuild noZip
             = (Inr (m, pkg'), w')"
  shows "storedPackage w' (Meta_Namespace (Pkg_Metadata pkg)) (Meta_Name (Pkg_Metadata pkg))
           = Some (pkg'\<lparr>Pkg_Metadata := m\<rparr>)"
proof -
  from updatePackage_Inr [OF assms] obtain w2 where
    "PackageUpdate w2 pkg' = (Inr m, w')" and "Pkg_Metadata pkg' = Pkg_Metadata pkg"
    by blast
  with PackageUpdate_Inr(2) [of w2 pkg' m w'] show ?thesis by simp
qed

subsection \<open>Evaluation on the example world\<close>

lemmas example_defs = exampleWorld_def exampleConfig_def examplePackage_def exampleFunction_def
  exampleFlags_def

lemmas updatePackage_defs = updatePackage_def updatePackage_spec_def updatePackage_source_def
  updatePackage_deploy_def updatePackage_persist_def

lemmas run_defs = invoke_def draw_def CheckErr_def CheckErrOf_def HasPrefix_def isHTTP_def
  TrimSuffix_def suffix_to_prefix Join_def pkgKey_def fnKey_def Println_def Let_def
  resultOf_def failureOf_def storedPackage_def storedFunction_def storedStatus_def

lemma createArchive_example:
  "createArchive (exampleWorld st) [''fn.zip''] noZip [] [] =
     (Inr (zeroArchive\<lparr>Archive_Type := ArchiveTypeLiteral,
             Archive_Literal := [0x50, 0x4B, 3, 4]\<rparr>),
      (exampleWorld st)\<lparr>tick := 1\<rparr>)"
  by (simp add: createArchive_def makeArchiveFileIfNeeded_def archiveName_def
      UploadArchive_def UploadArchive_store_def FileSize_def GetContents_def Stat_def ReadFile_def
      example_defs run_defs)

lemma resultOf_SomeE:
  assumes "resultOf r = Some x"
  obtains w' where "r = (Inr x, w')"
  using assms by (cases r) (auto simp add: resultOf_def split: sum.splits)

subsection \<open>Only a deployment archive, only a source archive\<close>

text \<open>
  C1, as stated, fails on a package that is pending already: the update that supplies
  only a deployment archive leaves the status alone, so the package \<open>hello\<close> of the
  example world, pending before, is pending after, in the value the update returns and
  in the store.
\<close>

theorem updatePackage_deploy_only_counterexample:
  "map_option (\<lambda>(m, p). Status_BuildStatus (Pkg_Status p))
     (resultOf (updatePackage (exampleWorld BuildStatusPending)
        (examplePackage ''hello'' BuildStatusPending) [] [] [] [''fn.zip''] [] False False))
     = Some BuildStatusPending
   \<and> storedStatus (snd (updatePackage (exampleWorld BuildStatusPending)
        (examplePackage ''hello'' BuildStatusPending) [] [] [] [''fn.zip''] [] False False))
        ''default'' ''hello'' = Some BuildStatusPending"
  apply (simp add: updatePackage_defs createArchive_example)
  apply (simp add: PackageUpdate_def example_defs run_defs)
  done

text \<open>
  C1, amended.  An update that supplies only a new deployment archive (no environment,
  no build command, no source archive, no forced rebuild) leaves the status of the
  package as it was, so the build status is other than Pending exactly when it was so
  before; an update that supplies only a new source archive sets the build status to
  Pending.  Both hold of the package the update returns and of the package the store
  holds afterwards.
\<close>

theorem updatePackage_single_archive_status:
  assumes "updatePackage w pkg [] [] src deploy [] False noZip = (Inr (m, pkg'), w')"
  shows "(src = [] \<and> deploy \<noteq> [] \<longrightarrow>
            Pkg_Status pkg' = Pkg_Status pkg \<and>
            storedStatus w' (Meta_Namespace (Pkg_Metadata pkg)) (Meta_Name (Pkg_Metadata pkg))
              = Some (Status_BuildStatus (Pkg_Status pkg)))
       \<and> (src \<noteq> [] \<and> deploy = [] \<longrightarrow>
            Status_BuildStatus (Pkg_Status pkg') = BuildStatusPending \<and>
            storedStatus w' (Meta_Namespace (Pkg_Metadata pkg)) (Meta_Name (Pkg_Metadata pkg))
              = Some BuildStatusPending)"
  using updatePackage_Inr [OF assms] updatePackage_stored [OF assms]
  by (simp add: storedStatus_def)

theorem updatePackage_single_archive_status_witness:
  "storedStatus (snd (updatePackage (exampleWorld BuildStatusSucceeded)
        (examplePackage ''hello'' BuildStatusSucceeded) [] [] [] [''fn.zip''] [] False False))
        ''default'' ''hello'' = Some BuildStatusSucceeded
   \<and> storedStatus (snd (updatePackage (exampleWorld BuildStatusSucceeded)
        (examplePackage ''hello'' BuildStatusSucceeded) [] [] [''fn.zip''] [] [] False False))
        ''default'' ''hello'' = Some BuildStatusPending"
proof -
  let ?w = "exampleWorld BuildStatusSucceeded"
  let ?p = "examplePackage ''hello'' BuildStatusSucceeded"
  have "resultOf (updatePackage ?w ?p [] [] [] [''fn.zip''] [] False False) \<noteq> None"
    apply (simp add: updatePackage_defs createArchive_example)
    apply (simp add: PackageUpdate_def example_defs run_defs)
    done
  then obtain m1 p1 w1 where
    d: "updatePackage ?w ?p [] [] [] [''fn.zip''] [] False False = (Inr (m1, p1), w1)"
    by (auto elim: resultOf_SomeE)
  have "resultOf (updatePackage ?w ?p [] [] [''fn.zip''] [] [] False False) \<noteq> None"
    apply (simp add: updatePackage_defs createArchive_example)
    apply (simp add: PackageUpdate_def example_defs run_defs)
    done
  then obtain m2 p2 w2 where
    s: "updatePackage ?w ?p [] [] [''fn.zip''] [] [] False False = (Inr (m2, p2), w2)"
    by (auto elim: resultOf_SomeE)
  from updatePackage_single_archive_status [OF d]
  have a: "storedStatus w1 ''default'' ''hello'' = Some BuildStatusSucceeded"
    by (simp add: examplePackage_def)
  from updatePackage_single_archive_status [OF s]
  have b: "storedStatus w2 ''default'' ''hello'' = Some BuildStatusPending"
    by (simp add: examplePackage_def)
  show ?thesis
    by (simp add: d s a b)
qed

subsection \<open>A change of environment, build command or source archive\<close>

text \<open>
  C2, as stated, fails when a deployment archive comes with the change: the update of
  \<open>hello\<close> that names the new environment \<open>nodejs\<close> and supplies a deployment
  archive writes the new environment and leaves the build status Succeeded.
\<close>

theorem updatePackage_env_and_deploy_counterexample:
  "map_option
     (\<lambda>(m, p). (Env_Name (Spec_Environment (Pkg_Spec p)), Status_BuildStatus (Pkg_Status p)))
     (resultOf (updatePackage (exampleWorld BuildStatusSucceeded)
        (examplePackage ''hello'' BuildStatusSucceeded)
        ''nodejs'' [] [] [''fn.zip''] [] False False))
     = Some (''nodejs'', BuildStatusSucceeded)
   \<and> storedStatus (snd (updatePackage (exampleWorld BuildStatusSucceeded)
        (examplePackage ''hello'' BuildStatusSucceeded)
        ''nodejs'' [] [] [''fn.zip''] [] False False))
        ''default'' ''hello'' = Some BuildStatusSucceeded"
  apply (simp add: updatePackage_defs createArchive_example)
  apply (simp add: PackageUpdate_def example_defs run_defs)
  done

text \<open>
  C2, amended.  In an update in which the environment name, the environment namespace
  or the build command is supplied or comes out changed, or a source archive is
  supplied: when no deployment archive is supplied in the same update, the status of the
  package is set to Pending (with an empty build log), in the package returned and in
  the store; when a deployment archive is supplied with it, without a source archive and
  without a forced rebuild, the status is left as it was.
\<close>

theorem updatePackage_change_sets_pending:
  assumes "updatePackage w pkg envName envNamespace src deploy buildcmd forceRebuild noZip
             = (Inr (m, pkg'), w')"
    and "envName \<noteq> [] \<or> envNamespace \<noteq> [] \<or> buildcmd \<noteq> [] \<or> src \<noteq> []
         \<or> Env_Name (Spec_Environment (Pkg_Spec pkg'))
              \<noteq> Env_Name (Spec_Environment (Pkg_Spec pkg))
         \<or> Env_Namespace (Spec_Environment (Pkg_Spec pkg'))
              \<noteq> Env_Namespace (Spec_Environment (Pkg_Spec pkg))
         \<or> Spec_BuildCommand (Pkg_Spec pkg') \<noteq> Spec_BuildCommand (Pkg_Spec pkg)"
  shows "(deploy = [] \<longrightarrow>
            Pkg_Status pkg' = \<lparr>Status_BuildStatus = BuildStatusPending, Status_BuildLog = []\<rparr> \<and>
            storedStatus w' (Meta_Namespace (Pkg_Metadata pkg)) (Meta_Name (Pkg_Metadata pkg))
              = Some BuildStatusPending)
       \<and> (deploy \<noteq> [] \<and> src = [] \<and> \<not> forceRebuild \<longrightarrow>
            Pkg_Status pkg' = Pkg_Status pkg \<and>
            storedStatus w' (Meta_Namespace (Pkg_Metadata pkg)) (Meta_Name (Pkg_Metadata pkg))
              = Some (Status_BuildStatus (Pkg_Status pkg)))"
proof -
  note f = updatePackage_Inr [OF assms(1)]
  from f assms(2) have "envName \<noteq> [] \<or> envNamespace \<noteq> [] \<or> buildcmd \<noteq> [] \<or> src \<noteq> []"
    by (auto split: if_splits)
  with f updatePackage_stored [OF assms(1)] show ?thesis
    by (auto simp add: storedStatus_def)
qed

theorem updatePackage_change_sets_pending_witness:
  "storedStatus (snd (updatePackage (exampleWorld BuildStatusSucceeded)
        (examplePackage ''hello'' BuildStatusSucceeded) ''nodejs'' [] [] [] [] False False))
        ''default'' ''hello'' = Some BuildStatusPending
   \<and> storedStatus (snd (updatePackage (exampleWorld BuildStatusFailed)
        (examplePackage ''hello'' BuildStatusFailed) [] [] [] [''fn.zip''] ''make'' False False))
        ''default'' ''hello'' = Some BuildStatusFailed"
proof -
  let ?w = "exampleWorld BuildStatusSucceeded"
  let ?p = "examplePackage ''hello'' BuildStatusSucceeded"
  let ?v = "exampleWorld BuildStatusFailed"
  let ?q = "examplePackage ''hello'' BuildStatusFailed"
  have "resultOf (updatePackage ?w ?p ''nodejs'' [] [] [] [] False False) \<noteq> None"
    by (simp add: updatePackage_defs PackageUpdate_def example_defs run_defs)
  then obtain m1 p1 w1 where
    e: "updatePackage ?w ?p ''nodejs'' [] [] [] [] False False = (Inr (m1, p1), w1)"
    by (auto elim: resultOf_SomeE)
  have "resultOf (updatePackage ?v ?q [] [] [] [''fn.zip''] ''make'' False False) \<noteq> None"
    apply (simp add: updatePackage_defs createArchive_example)
    apply (simp add: PackageUpdate_def example_defs run_defs)
    done
  then obtain m2 p2 w2 where
    d: "updatePackage ?v ?q [] [] [] [''fn.zip''] ''make'' False False = (Inr (m2, p2), w2)"
    by (auto elim: resultOf_SomeE)
  from updatePackage_change_sets_pending [OF e]
  have a: "storedStatus w1 ''default'' ''hello'' = Some BuildStatusPending"
    by (simp add: examplePackage_def)
  from updatePackage_change_sets_pending [OF d]
  have b: "storedStatus w2 ''default'' ''hello'' = Some BuildStatusFailed"
    by (simp add: examplePackage_def)
  show ?thesis
    by (simp add: e d a b)
qed

subsection \<open>What an update without a rebuild trigger leaves alone\<close>

text \<open>
  C10.  A call of \<open>updatePackage\<close> that supplies no environment name, no environment
  namespace, no build command and no source archive, and does not force a rebuild, leaves
  the whole status of the package (build status and build log) as it was, also when it
  supplies a new deployment archive; of the spec it leaves the environment, the source
  archive and the build command as they were, and the whole spec when no deployment
  archive is supplied.  The store then holds the package so modified, under the new
  resource version.
\<close>

theorem updatePackage_frame:
  assumes "updatePackage w pkg [] [] [] deploy [] False noZip = (Inr (m, pkg'), w')"
  shows "Pkg_Status pkg' = Pkg_Status pkg
       \<and> Spec_Environment (Pkg_Spec pkg') = Spec_Environment (Pkg_Spec pkg)
       \<and> Spec_Source (Pkg_Spec pkg') = Spec_Source (Pkg_Spec pkg)
       \<and> Spec_BuildCommand (Pkg_Spec pkg') = Spec_BuildCommand (Pkg_Spec pkg)
       \<and> (deploy = [] \<longrightarrow> Pkg_Spec pkg' = Pkg_Spec pkg)
       \<and> storedPackage w' (Meta_Namespace (Pkg_Metadata pkg)) (Meta_Name (Pkg_Metadata pkg))
           = Some (pkg'\<lparr>Pkg_Metadata := m\<rparr>)"
proof -
  note f = updatePackage_Inr [OF assms]
  have env: "Spec_Environment (Pkg_Spec pkg') = Spec_Environment (Pkg_Spec pkg)"
    using f by (intro EnvironmentReference.equality) simp_all
  moreover have "deploy = [] \<longrightarrow> Pkg_Spec pkg' = Pkg_Spec pkg"
    using f env by (auto intro!: PackageSpec.equality)
  ultimately show ?thesis
    using f updatePackage_stored [OF assms] by simp
qed

theorem updatePackage_frame_witness:
  "map_option (\<lambda>p. (Pkg_Status p, Spec_Environment (Pkg_Spec p), Spec_Source (Pkg_Spec p),
        Spec_BuildCommand (Pkg_Spec p)))
     (storedPackage (snd (updatePackage (exampleWorld BuildStatusRunning)
        (examplePackage ''hello'' BuildStatusRunning) [] [] [] [''fn.zip''] [] False False))
        ''default'' ''hello'')
   = Some (\<lparr>Status_BuildStatus = BuildStatusRunning, Status_BuildLog = ''log''\<rparr>,
           \<lparr>Env_Namespace = ''default'', Env_Name = ''python''\<rparr>, zeroArchive, [])"
proof -
  let ?w = "exampleWorld BuildStatusRunning"
  let ?p = "examplePackage ''hello'' BuildStatusRunning"
  have "resultOf (updatePackage ?w ?p [] [] [] [''fn.zip''] [] False False) \<noteq> None"
    apply (simp add: updatePackage_defs createArchive_example)
    apply (simp add: PackageUpdate_def example_defs run_defs)
    done
  then obtain m1 p1 w1 where
    d: "updatePackage ?w ?p [] [] [] [''fn.zip''] [] False False = (Inr (m1, p1), w1)"
    by (auto elim: resultOf_SomeE)
  from updatePackage_frame [OF d]
  have "map_option (\<lambda>p. (Pkg_Status p, Spec_Environment (Pkg_Spec p), Spec_Source (Pkg_Spec p),
        Spec_BuildCommand (Pkg_Spec p))) (storedPackage w1 ''default'' ''hello'')
   = Some (\<lparr>Status_BuildStatus = BuildStatusRunning, Status_BuildLog = ''log''\<rparr>,
           \<lparr>Env_Namespace = ''default'', Env_Name = ''python''\<rparr>, zeroArchive, [])"
    by (simp add: examplePackage_def)
  then show ?thesis
    by (simp add: d)
qed

section \<open>Rebuild of a failed package\<close>

lemma find_key_SomeD:
  assumes "find (\<lambda>q. key q = k) xs = Some x"
  shows "key x = k" "x \<in> set xs"
  using assms by (auto simp add: find_Some_iff)

lemma updatePackage_force:
  "updatePackage w pkg [] [] [] [] [] True False =
     (case CheckErr ''update package''
             (PackageUpdate w (pkg\<lparr>Pkg_Status := \<lparr>Status_BuildStatus = BuildStatusPending,
                                                Status_BuildLog = []\<rparr>\<rparr>)) of
        (Inl e, w3) \<Rightarrow> (Inl e, w3)
      | (Inr m, w3) \<Rightarrow>
          (Inr (m, pkg\<lparr>Pkg_Status := \<lparr>Status_BuildStatus = BuildStatusPending,
                                      Status_BuildLog = []\<rparr>\<rparr>), w3))"
  by (simp add: updatePackage_def updatePackage_spec_def updatePackage_source_def
      updatePackage_deploy_def updatePackage_persist_def Let_def)

lemma PackageUpdate_Inl:
  assumes "PackageUpdate w p = (Inl e, w')"
  shows "packageStore w' = packageStore w" "functionStore w' = functionStore w"
  using assms
  by (auto simp add: PackageUpdate_def invoke_def Let_def split: option.splits if_splits)

lemma PackageUpdate_refused:
  assumes "faults (cfg w) (tick w)
             (ReqPackageUpdate (Meta_Namespace (Pkg_Metadata p)) (Meta_Name (Pkg_Metadata p)))
           = Some err"
  shows "\<exists>w'. PackageUpdate w p = (Inl err, w')"
  using assms by (simp add: PackageUpdate_def invoke_def pkgKey_def)

lemma PackageUpdate_current:
  assumes "storedPackage w ns n = Some old"
    and "Pkg_Metadata p = Pkg_Metadata old"
    and "faults (cfg w) (tick w) (ReqPackageUpdate ns n) = None"
  shows "\<exists>m w'. PackageUpdate w p = (Inr m, w')"
proof -
  from assms(1) have f: "find (\<lambda>q. pkgKey q = (ns, n)) (packageStore w) = Some old"
    by (simp add: storedPackage_def)
  from find_key_SomeD(1) [OF f] assms(2) have kp: "pkgKey p = (ns, n)"
    by (simp add: pkgKey_def)
  show ?thesis
    using f kp assms(2,3)
    by (simp add: PackageUpdate_def invoke_def Let_def)
qed

text \<open>
  C4.  For a package that the store holds and that the command can read: \<open>pkgRebuild\<close>
  succeeds exactly when the build status of the package is Failed (and the store accepts
  the write), and the store then holds the package with build status Pending.  For
  every other build status it terminates with the report that the package is not in
  failed state, and whenever it does not succeed the packages of the store, their
  statuses among them, are as they were.
\<close>

theorem pkgRebuild_only_failed:
  assumes name: "flag_name c \<noteq> []"
    and get: "faults (cfg w) (tick w) (ReqPackageGet (flag_pkgNamespace c) (flag_name c)) = None"
    and stored: "storedPackage w (flag_pkgNamespace c) (flag_name c) = Some pkg"
  shows "((resultOf (pkgRebuild w c) = Some ()) =
            (Status_BuildStatus (Pkg_Status pkg) = BuildStatusFailed \<and>
             faults (cfg w) (tick w + 1)
               (ReqPackageUpdate (flag_pkgNamespace c) (flag_name c)) = None))
       \<and> (resultOf (pkgRebuild w c) = Some () \<longrightarrow>
            storedStatus (snd (pkgRebuild w c)) (flag_pkgNamespace c) (flag_name c)
              = Some BuildStatusPending)
       \<and> (Status_BuildStatus (Pkg_Status pkg) \<noteq> BuildStatusFailed \<longrightarrow>
            failureOf (pkgRebuild w c) =
              Some (LogFatal (''Package '' @ flag_name c @ '' is not in failed state.'')))
       \<and> (resultOf (pkgRebuild w c) \<noteq> Some () \<longrightarrow>
            packageStore (snd (pkgRebuild w c)) = packageStore w)"
proof -
  let ?ns = "flag_pkgNamespace c" and ?n = "flag_name c"
  let ?w1 = "w\<lparr>trace := trace w @ [ReqPackageGet ?ns ?n], tick := tick w + 1\<rparr>"
  let ?pending = "pkg\<lparr>Pkg_Status := \<lparr>Status_BuildStatus = BuildStatusPending,
                                      Status_BuildLog = []\<rparr>\<rparr>"
  from stored have f: "find (\<lambda>q. pkgKey q = (?ns, ?n)) (packageStore w) = Some pkg"
    by (simp add: storedPackage_def)
  from find_key_SomeD(1) [OF f] have nm: "Meta_Name (Pkg_Metadata pkg) = ?n"
    and nsp: "Meta_Namespace (Pkg_Metadata pkg) = ?ns"
    by (simp_all add: pkgKey_def)
  have g: "PackageGet w ?ns ?n = (Inr pkg, ?w1)"
    using get f by (simp add: PackageGet_def invoke_def)
  have s1: "storedPackage ?w1 ?ns ?n = Some pkg"
    using stored by (simp add: storedPackage_def)
  show ?thesis
  proof (cases "Status_BuildStatus (Pkg_Status pkg) = BuildStatusFailed")
    case False
    then show ?thesis
      using name g nm
      by (simp add: pkgRebuild_def Let_def CheckErr_def resultOf_def failureOf_def)
  next
    case True
    show ?thesis
    proof (cases "faults (cfg w) (tick w + 1) (ReqPackageUpdate ?ns ?n)")
      case None
      with PackageUpdate_current [OF s1, of ?pending] obtain m w2 where
        pu: "PackageUpdate ?w1 ?pending = (Inr m, w2)"
        by auto
      from PackageUpdate_Inr(2) [OF pu] nm nsp
      have "storedStatus w2 ?ns ?n = Some BuildStatusPending"
        by (simp add: storedStatus_def)
      then show ?thesis
        using name g True None pu
        by (simp add: pkgRebuild_def Let_def updatePackage_force CheckErr_def resultOf_def
            failureOf_def Println_def storedStatus_def storedPackage_def)
    next
      case (Some err)
      with PackageUpdate_refused [of ?w1 ?pending err] nm nsp obtain w2 where
        pu: "PackageUpdate ?w1 ?pending = (Inl err, w2)"
        by auto
      from PackageUpdate_Inl(1) [OF pu] have "packageStore w2 = packageStore w"
        by simp
      then show ?thesis
        using name g True Some pu
        by (simp add: pkgRebuild_def Let_def updatePackage_force CheckErr_def resultOf_def
            failureOf_def)
    qed
  qed
qed

theorem pkgRebuild_only_failed_witness:
  "resultOf (pkgRebuild (exampleWorld BuildStatusFailed) exampleFlags) = Some ()
   \<and> storedStatus (snd (pkgRebuild (exampleWorld BuildStatusFailed) exampleFlags))
        ''default'' ''hello'' = Some BuildStatusPending
   \<and> failureOf (pkgRebuild (exampleWorld BuildStatusSucceeded) exampleFlags)
        = Some (LogFatal ''Package hello is not in failed state.'')
   \<and> storedStatus (snd (pkgRebuild (exampleWorld BuildStatusSucceeded) exampleFlags))
        ''default'' ''hello'' = Some BuildStatusSucceeded"
proof -
  have a: "flag_name exampleFlags \<noteq> []" "flag_name exampleFlags = ''hello''"
    "flag_pkgNamespace exampleFlags = ''default''"
    by (simp_all add: exampleFlags_def)
  have b: "faults (cfg (exampleWorld st)) t r = None" for st t r
    by (simp add: example_defs)
  have c: "storedPackage (exampleWorld st) (flag_pkgNamespace exampleFlags)
             (flag_name exampleFlags) = Some (examplePackage ''hello'' st)" for st
    by (simp add: example_defs run_defs)
  have d: "Status_BuildStatus (Pkg_Status (examplePackage n st)) = st" for n st
    by (simp add: examplePackage_def)
  have e: "storedStatus (exampleWorld st) ''default'' ''hello'' = Some st" for st
    by (simp add: example_defs run_defs)
  from pkgRebuild_only_failed [OF a(1) b c, of BuildStatusFailed]
  have f1: "resultOf (pkgRebuild (exampleWorld BuildStatusFailed) exampleFlags) = Some ()"
    "storedStatus (snd (pkgRebuild (exampleWorld BuildStatusFailed) exampleFlags))
        ''default'' ''hello'' = Some BuildStatusPending"
    by (simp_all add: a b d)
  from pkgRebuild_only_failed [OF a(1) b c, of BuildStatusSucceeded]
  have f2: "failureOf (pkgRebuild (exampleWorld BuildStatusSucceeded) exampleFlags)
        = Some (LogFatal ''Package hello is not in failed state.'')"
    and "packageStore (snd (pkgRebuild (exampleWorld BuildStatusSucceeded) exampleFlags))
        = packageStore (exampleWorld BuildStatusSucceeded)"
    by (simp_all add: a b d)
  then have "storedStatus (snd (pkgRebuild (exampleWorld BuildStatusSucceeded) exampleFlags))
        ''default'' ''hello'' = storedStatus (exampleWorld BuildStatusSucceeded) ''default'' ''hello''"
    by (simp add: storedStatus_def storedPackage_def)
  with f1 f2 e show ?thesis
    by simp
qed

section \<open>Deletion of a package\<close>

lemma getFunctionsByPackage_eq:
  "getFunctionsByPackage w pkgName pkgNamespace =
     (case faults (cfg w) (tick w) (ReqFunctionList pkgNamespace) of
        Some err \<Rightarrow> Inl err
      | None \<Rightarrow> Inr (functionsReferencing w pkgName pkgNamespace),
      w\<lparr>trace := trace w @ [ReqFunctionList pkgNamespace], tick := tick w + 1\<rparr>)"
  by (simp add: getFunctionsByPackage_def FunctionList_def invoke_def functionsReferencing_def
      split: option.splits)

lemma find_filter_neg: "find P (filter (\<lambda>x. \<not> P x) xs) = None"
  by (induction xs) auto

lemma PackageDelete_eq:
  assumes "storedPackage w ns n = Some p"
  shows "PackageDelete w ns n =
     (case faults (cfg w) (tick w) (ReqPackageDelete ns n) of
        Some err \<Rightarrow> (Inl err, w\<lparr>trace := trace w @ [ReqPackageDelete ns n], tick := tick w + 1\<rparr>)
      | None \<Rightarrow>
          (Inr (), w\<lparr>trace := trace w @ [ReqPackageDelete ns n], tick := tick w + 1,
                     packageStore := filter (\<lambda>p. pkgKey p \<noteq> (ns, n)) (packageStore w)\<rparr>))"
  using assms
  by (simp add: PackageDelete_def invoke_def storedPackage_def split: option.splits)

text \<open>
  C7.  For a package that the store holds, named without the orphan flag, and with the
  reads of the package and of the functions not refused: without force, \<open>pkgDelete\<close>
  terminates with a report and leaves the packages of the store as they are whenever at
  least one function refers to the package; with force it succeeds whatever functions
  refer to the package (the store accepting the deletion), and the store holds no package
  of that name and namespace afterwards.
\<close>

theorem pkgDelete_force:
  assumes name: "flag_name c \<noteq> []" and single: "\<not> flag_orphan c"
    and stored: "storedPackage w (flag_pkgNamespace c) (flag_name c) = Some pkg"
    and get: "faults (cfg w) (tick w) (ReqPackageGet (flag_pkgNamespace c) (flag_name c)) = None"
    and list: "faults (cfg w) (tick w + 1) (ReqFunctionList (flag_pkgNamespace c)) = None"
  shows "(\<not> flag_f c \<and> functionsReferencing w (flag_name c) (flag_pkgNamespace c) \<noteq> [] \<longrightarrow>
            failureOf (pkgDelete w c) =
              Some (LogFatal ''Package is used by at least one function, use -f to force delete'')
            \<and> packageStore (snd (pkgDelete w c)) = packageStore w)
       \<and> (flag_f c \<and>
          faults (cfg w) (tick w + 2) (ReqPackageDelete (flag_pkgNamespace c) (flag_name c)) = None
          \<longrightarrow>
            resultOf (pkgDelete w c) = Some ()
            \<and> storedPackage (snd (pkgDelete w c)) (flag_pkgNamespace c) (flag_name c) = None)"
proof -
  let ?ns = "flag_pkgNamespace c" and ?n = "flag_name c"
  let ?w1 = "w\<lparr>trace := trace w @ [ReqPackageGet ?ns ?n], tick := tick w + 1\<rparr>"
  let ?w2 = "?w1\<lparr>trace := trace ?w1 @ [ReqFunctionList ?ns], tick := tick ?w1 + 1\<rparr>"
  from stored have f: "find (\<lambda>q. pkgKey q = (?ns, ?n)) (packageStore w) = Some pkg"
    by (simp add: storedPackage_def)
  have g: "PackageGet w ?ns ?n = (Inr pkg, ?w1)"
    using get f by (simp add: PackageGet_def invoke_def)
  have fl: "getFunctionsByPackage ?w1 ?n ?ns = (Inr (functionsReferencing w ?n ?ns), ?w2)"
    using list by (simp add: getFunctionsByPackage_eq functionsReferencing_def)
  have s2: "storedPackage ?w2 ?ns ?n = Some pkg"
    using stored by (simp add: storedPackage_def)
  note d = PackageDelete_eq [OF s2]
  show ?thesis
    using name single g fl d
    by (auto simp add: pkgDelete_def Let_def CheckErr_def deletePackage_def resultOf_def
        failureOf_def Println_def storedPackage_def find_filter_neg)
qed

theorem pkgDelete_force_witness:
  "failureOf (pkgDelete (exampleWorld BuildStatusSucceeded) exampleFlags)
     = Some (LogFatal ''Package is used by at least one function, use -f to force delete'')
   \<and> storedStatus (snd (pkgDelete (exampleWorld BuildStatusSucceeded) exampleFlags))
        ''default'' ''hello'' = Some BuildStatusSucceeded
   \<and> resultOf (pkgDelete (exampleWorld BuildStatusSucceeded) (exampleFlags\<lparr>flag_f := True\<rparr>))
        = Some ()
   \<and> storedPackage (snd (pkgDelete (exampleWorld BuildStatusSucceeded)
        (exampleFlags\<lparr>flag_f := True\<rparr>))) ''default'' ''hello'' = None"
proof -
  let ?w = "exampleWorld BuildStatusSucceeded"
  have a: "flag_name (exampleFlags\<lparr>flag_f := b\<rparr>) \<noteq> []"
    "\<not> flag_orphan (exampleFlags\<lparr>flag_f := b\<rparr>)"
    "flag_name (exampleFlags\<lparr>flag_f := b\<rparr>) = ''hello''"
    "flag_pkgNamespace (exampleFlags\<lparr>flag_f := b\<rparr>) = ''default''"
    "flag_f (exampleFlags\<lparr>flag_f := b\<rparr>) = b" for b
    by (simp_all add: exampleFlags_def)
  have x: "exampleFlags\<lparr>flag_f := False\<rparr> = exampleFlags"
    "flag_name exampleFlags = ''hello''" "flag_pkgNamespace exampleFlags = ''default''"
    "\<not> flag_f exampleFlags"
    by (simp_all add: exampleFlags_def)
  have b: "faults (cfg ?w) t r = None" for t r
    by (simp add: example_defs)
  have c: "storedPackage ?w (flag_pkgNamespace (exampleFlags\<lparr>flag_f := b\<rparr>))
             (flag_name (exampleFlags\<lparr>flag_f := b\<rparr>)) = Some (examplePackage ''hello'' BuildStatusSucceeded)" for b
    by (simp add: example_defs run_defs)
  have r: "functionsReferencing ?w ''hello'' ''default'' \<noteq> []"
    by (simp add: functionsReferencing_def example_defs)
  have e: "storedStatus ?w ''default'' ''hello'' = Some BuildStatusSucceeded"
    by (simp add: example_defs run_defs)
  from pkgDelete_force [OF a(1,2) c b b, of False]
  have f1: "failureOf (pkgDelete ?w exampleFlags)
     = Some (LogFatal ''Package is used by at least one function, use -f to force delete'')"
    and "packageStore (snd (pkgDelete ?w exampleFlags)) = packageStore ?w"
    by (simp_all add: a r x)
  then have "storedStatus (snd (pkgDelete ?w exampleFlags)) ''default'' ''hello''
      = storedStatus ?w ''default'' ''hello''"
    by (simp add: storedStatus_def storedPackage_def)
  moreover from pkgDelete_force [OF a(1,2) c b b, of True]
  have "resultOf (pkgDelete ?w (exampleFlags\<lparr>flag_f := True\<rparr>)) = Some ()"
    "storedPackage (snd (pkgDelete ?w (exampleFlags\<lparr>flag_f := True\<rparr>))) ''default'' ''hello'' = None"
    by (simp_all add: a b)
  ultimately show ?thesis
    using f1 e by simp
qed

section \<open>The orphan sweep\<close>

lemma deleteRequests_append [simp]:
  "deleteRequests (xs @ ys) = deleteRequests xs @ deleteRequests ys"
  by (induction xs rule: deleteRequests.induct) auto

lemma functionsReferencing_cong:
  "functionStore w' = functionStore w \<Longrightarrow> functionsReferencing w' n ns = functionsReferencing w n ns"
  by (simp add: functionsReferencing_def)

lemma PackageDelete_cases:
  assumes "PackageDelete w ns n = (r, w')"
  shows "functionStore w' = functionStore w \<and> cfg w' = cfg w
       \<and> deleteRequests (trace w') = deleteRequests (trace w) @ [(ns, n)]
       \<and> (case r of
            Inl err \<Rightarrow> packageStore w' = packageStore w
          | Inr u \<Rightarrow> packageStore w' = filter (\<lambda>p. pkgKey p \<noteq> (ns, n)) (packageStore w))"
  using assms
  by (auto simp add: PackageDelete_def invoke_def split: option.splits)

lemma deleteOrphanPkgs_loop_sweep:
  assumes "deleteOrphanPkgs_loop w ns ps = (r, w')"
  shows "\<exists>deleted.
          packageStore w' =
            filter (\<lambda>q. pkgKey q \<notin> set (map (nameKey ns) deleted)) (packageStore w)
        \<and> functionStore w' = functionStore w
        \<and> cfg w' = cfg w
        \<and> prefix deleted
              (filter (\<lambda>p. functionsReferencing w (Meta_Name (Pkg_Metadata p)) ns = []) ps)
        \<and> (r = Inr () \<longrightarrow>
             deleted = filter (\<lambda>p. functionsReferencing w (Meta_Name (Pkg_Metadata p)) ns = []) ps
             \<and> deleteRequests (trace w') = deleteRequests (trace w) @ map (nameKey ns) deleted)
        \<and> (\<forall>err. r = Inl (Returned err) \<longrightarrow>
             (\<exists>p rest.
                filter (\<lambda>p. functionsReferencing w (Meta_Name (Pkg_Metadata p)) ns = []) ps
                  = deleted @ p # rest
                \<and> deleteRequests (trace w')
                  = deleteRequests (trace w) @ map (nameKey ns) (deleted @ [p])))
        \<and> (\<forall>msg err. r = Inl (CheckErrFatal msg err) \<longrightarrow>
             prefix deleted
               (filter (\<lambda>p. functionsReferencing w (Meta_Name (Pkg_Metadata p)) ns = []) ps)
             \<and> deleteRequests (trace w') = deleteRequests (trace w) @ map (nameKey ns) deleted)
        \<and> (\<forall>msg. r \<noteq> Inl (LogFatal msg))"
  using assms
proof (induction ps arbitrary: w)
  case Nil
  then show ?case
    by (intro exI [of _ "[]"]) auto
next
  case (Cons pkg rest)
  let ?n = "Meta_Name (Pkg_Metadata pkg)"
  let ?orph = "\<lambda>w p. functionsReferencing w (Meta_Name (Pkg_Metadata p)) ns = []"
  let ?w1 = "w\<lparr>trace := trace w @ [ReqFunctionList ns], tick := tick w + 1\<rparr>"
  have fr1: "functionsReferencing ?w1 n ns = functionsReferencing w n ns" for n
    by (simp add: functionsReferencing_def)
  show ?case
  proof (cases "faults (cfg w) (tick w) (ReqFunctionList ns)")
    case (Some err)
    with Cons.prems show ?thesis
      by (intro exI [of _ "[]"])
        (auto simp add: getFunctionsByPackage_eq CheckErr_def)
  next
    case None
    show ?thesis
    proof (cases "functionsReferencing w ?n ns = []")
      case False
      with None Cons.prems have "deleteOrphanPkgs_loop ?w1 ns rest = (r, w')"
        by (simp add: getFunctionsByPackage_eq CheckErr_def)
      from Cons.IH [OF this] obtain deleted where
        "packageStore w' =
            filter (\<lambda>q. pkgKey q \<notin> set (map (nameKey ns) deleted)) (packageStore ?w1)"
        "functionStore w' = functionStore ?w1" "cfg w' = cfg ?w1"
        "prefix deleted (filter (?orph ?w1) rest)"
        "r = Inr () \<longrightarrow> deleted = filter (?orph ?w1) rest
             \<and> deleteRequests (trace w') = deleteRequests (trace ?w1) @ map (nameKey ns) deleted"
        "\<forall>err. r = Inl (Returned err) \<longrightarrow>
             (\<exists>p rest'. filter (?orph ?w1) rest = deleted @ p # rest'
                \<and> deleteRequests (trace w')
                  = deleteRequests (trace ?w1) @ map (nameKey ns) (deleted @ [p]))"
        "\<forall>msg err. r = Inl (CheckErrFatal msg err) \<longrightarrow>
             prefix deleted (filter (?orph ?w1) rest)
             \<and> deleteRequests (trace w') = deleteRequests (trace ?w1) @ map (nameKey ns) deleted"
        "\<forall>msg. r \<noteq> Inl (LogFatal msg)"
        by blast
      with False show ?thesis
        by (intro exI [of _ deleted]) (simp add: functionsReferencing_def)
    next
      case True
      obtain rd w2 where d: "PackageDelete ?w1 ns ?n = (rd, w2)"
        by (cases "PackageDelete ?w1 ns ?n")
      note dc = PackageDelete_cases [OF d]
      show ?thesis
      proof (cases rd)
        case (Inl err)
        with True None Cons.prems d have "r = Inl (Returned err)" "w' = w2"
          by (simp_all add: getFunctionsByPackage_eq CheckErr_def deletePackage_def)
        with dc Inl True show ?thesis
          by (intro exI [of _ "[]"]) (auto simp add: nameKey_def functionsReferencing_def)
      next
        case (Inr u)
        with True None Cons.prems d have "deleteOrphanPkgs_loop w2 ns rest = (r, w')"
          by (simp add: getFunctionsByPackage_eq CheckErr_def deletePackage_def)
        from Cons.IH [OF this] obtain deleted where
          "packageStore w' =
            filter (\<lambda>q. pkgKey q \<notin> set (map (nameKey ns) deleted)) (packageStore w2)"
          "functionStore w' = functionStore w2" "cfg w' = cfg w2"
          "prefix deleted (filter (?orph w2) rest)"
          "r = Inr () \<longrightarrow> deleted = filter (?orph w2) rest
             \<and> deleteRequests (trace w') = deleteRequests (trace w2) @ map (nameKey ns) deleted"
          "\<forall>err. r = Inl (Returned err) \<longrightarrow>
             (\<exists>p rest'. filter (?orph w2) rest = deleted @ p # rest'
                \<and> deleteRequests (trace w')
                  = deleteRequests (trace w2) @ map (nameKey ns) (deleted @ [p]))"
          "\<forall>msg err. r = Inl (CheckErrFatal msg err) \<longrightarrow>
             prefix deleted (filter (?orph w2) rest)
             \<and> deleteRequests (trace w') = deleteRequests (trace w2) @ map (nameKey ns) deleted"
          "\<forall>msg. r \<noteq> Inl (LogFatal msg)"
          by blast
        then show ?thesis
          using dc Inr True
          by (intro exI [of _ "pkg # deleted"])
            (auto simp add: nameKey_def functionsReferencing_def)
      qed
    qed
  qed
qed


lemma distinct_key_mem:
  assumes "distinct (map key xs)" "x \<in> set xs" "set ys \<subseteq> set xs"
  shows "key x \<in> key ` set ys \<longleftrightarrow> x \<in> set ys"
  using assms by (auto simp add: distinct_map dest: inj_onD)

text \<open>
  C8.  In a store whose packages have distinct keys, the orphan sweep deletes a prefix
  \<open>deleted\<close> of the orphan packages of the namespace, in the order of the listing,
  and nothing else: a package that a function refers to stays in the store.  When the
  sweep succeeds it has requested the deletion of exactly the orphan packages and all of
  them are gone.  When it returns an error, either the listing of the packages was
  refused and nothing was attempted, or the deletion of the orphan \<open>p\<close> that follows
  \<open>deleted\<close> failed: that request is the last deletion attempted, the error is
  returned, and \<open>p\<close> and the orphans after it are still in the store.
\<close>

theorem deleteOrphanPkgs_sweep:
  assumes dist: "distinct (map pkgKey (packageStore w))"
    and run: "deleteOrphanPkgs w ns = (r, w')"
  shows "\<exists>deleted.
      packageStore w' = filter (\<lambda>q. q \<notin> set deleted) (packageStore w)
    \<and> prefix deleted (orphanPackages w ns)
    \<and> (\<forall>p \<in> set (packageStore w).
          functionsReferencing w (Meta_Name (Pkg_Metadata p)) ns \<noteq> [] \<longrightarrow>
            p \<in> set (packageStore w'))
    \<and> (r = Inr () \<longrightarrow>
          deleted = orphanPackages w ns
          \<and> deleteRequests (trace w') = deleteRequests (trace w) @ map pkgKey deleted)
    \<and> (\<forall>err. r = Inl (Returned err) \<longrightarrow>
          (\<exists>p rest. orphanPackages w ns = deleted @ p # rest
             \<and> deleteRequests (trace w') = deleteRequests (trace w) @ map pkgKey (deleted @ [p])
             \<and> (\<forall>q \<in> set (p # rest). q \<in> set (packageStore w')))
          \<or> (faults (cfg w) (tick w) (ReqPackageList ns) = Some err \<and> deleted = []
              \<and> deleteRequests (trace w') = deleteRequests (trace w)))
    \<and> (\<forall>msg err. r = Inl (CheckErrFatal msg err) \<longrightarrow>
          deleteRequests (trace w') = deleteRequests (trace w) @ map pkgKey deleted)
    \<and> (\<forall>msg. r \<noteq> Inl (LogFatal msg))"
proof (cases "faults (cfg w) (tick w) (ReqPackageList ns)")
  case (Some err)
  with run have "r = Inl (Returned err)"
    "w' = w\<lparr>trace := trace w @ [ReqPackageList ns], tick := tick w + 1\<rparr>"
    by (auto simp add: deleteOrphanPkgs_def PackageList_def invoke_def)
  with Some show ?thesis
    by (intro exI [of _ "[]"]) simp
next
  case None
  let ?w1 = "w\<lparr>trace := trace w @ [ReqPackageList ns], tick := tick w + 1\<rparr>"
  let ?ps = "filter (\<lambda>p. Meta_Namespace (Pkg_Metadata p) = ns) (packageStore w)"
  let ?orph = "\<lambda>p. functionsReferencing w (Meta_Name (Pkg_Metadata p)) ns = []"
  from None run have "deleteOrphanPkgs_loop ?w1 ns ?ps = (r, w')"
    by (simp add: deleteOrphanPkgs_def PackageList_def invoke_def)
  from deleteOrphanPkgs_loop_sweep [OF this] obtain deleted where
    st: "packageStore w' =
            filter (\<lambda>q. pkgKey q \<notin> set (map (nameKey ns) deleted)) (packageStore w)"
    and pre: "prefix deleted (filter ?orph ?ps)"
    and ok: "r = Inr () \<longrightarrow> deleted = filter ?orph ?ps
             \<and> deleteRequests (trace w') = deleteRequests (trace w) @ map (nameKey ns) deleted"
    and ret: "\<forall>err. r = Inl (Returned err) \<longrightarrow>
             (\<exists>p rest. filter ?orph ?ps = deleted @ p # rest
                \<and> deleteRequests (trace w')
                  = deleteRequests (trace w) @ map (nameKey ns) (deleted @ [p]))"
    and fat: "\<forall>msg err. r = Inl (CheckErrFatal msg err) \<longrightarrow>
             deleteRequests (trace w') = deleteRequests (trace w) @ map (nameKey ns) deleted"
    and nolog: "\<forall>msg. r \<noteq> Inl (LogFatal msg)"
    by (auto simp add: functionsReferencing_def)
  have orph: "orphanPackages w ns = filter ?orph ?ps"
    by (simp add: orphanPackages_def)
  have sub: "set (filter ?orph ?ps) \<subseteq> set (packageStore w)"
    by auto
  have key: "nameKey ns p = pkgKey p" if "p \<in> set (filter ?orph ?ps)" for p
    using that by (simp add: nameKey_def pkgKey_def)
  from pre have dsub: "set deleted \<subseteq> set (filter ?orph ?ps)"
    by (rule set_mono_prefix)
  then have keys: "map (nameKey ns) deleted = map pkgKey deleted"
    using key by (intro map_cong) auto
  have dO: "distinct (filter ?orph ?ps)"
    using dist by (auto dest: distinct_map [THEN iffD1])
  have st': "packageStore w' = filter (\<lambda>q. q \<notin> set deleted) (packageStore w)"
    unfolding st keys
    using distinct_key_mem [OF dist _ subset_trans [OF dsub sub]]
    by (intro filter_cong) auto
  have kept: "\<forall>p \<in> set (packageStore w). \<not> ?orph p \<longrightarrow> p \<in> set (packageStore w')"
    using dsub by (auto simp add: st')
  have later: "\<forall>q \<in> set (p # rest). q \<in> set (packageStore w')"
    if "filter ?orph ?ps = deleted @ p # rest" for p rest
  proof
    fix q assume q: "q \<in> set (p # rest)"
    with that sub have "q \<in> set (packageStore w)"
      by (metis Un_iff set_append subsetD)
    moreover from dO that q have "q \<notin> set deleted"
      by auto
    ultimately show "q \<in> set (packageStore w')"
      by (simp add: st')
  qed
  have keyp: "map (nameKey ns) (deleted @ [p]) = map pkgKey (deleted @ [p])"
    if "filter ?orph ?ps = deleted @ p # rest" for p rest
    using that key [of p] keys by (metis append_Cons in_set_conv_decomp list.simps(8,9) map_append)
  have c2: "prefix deleted (orphanPackages w ns)"
    unfolding orph by (rule pre)
  have c3: "\<forall>p \<in> set (packageStore w).
          functionsReferencing w (Meta_Name (Pkg_Metadata p)) ns \<noteq> [] \<longrightarrow>
            p \<in> set (packageStore w')"
    using kept by blast
  have c4: "r = Inr () \<longrightarrow>
          deleted = orphanPackages w ns
          \<and> deleteRequests (trace w') = deleteRequests (trace w) @ map pkgKey deleted"
    unfolding orph using ok keys by simp
  have c5: "\<forall>err. r = Inl (Returned err) \<longrightarrow>
          (\<exists>p rest. orphanPackages w ns = deleted @ p # rest
             \<and> deleteRequests (trace w') = deleteRequests (trace w) @ map pkgKey (deleted @ [p])
             \<and> (\<forall>q \<in> set (p # rest). q \<in> set (packageStore w')))
          \<or> (faults (cfg w) (tick w) (ReqPackageList ns) = Some err \<and> deleted = []
              \<and> deleteRequests (trace w') = deleteRequests (trace w))"
  proof (intro allI impI disjI1)
    fix err assume "r = Inl (Returned err)"
    with ret obtain p rest where
      d: "filter ?orph ?ps = deleted @ p # rest"
      and t: "deleteRequests (trace w')
                  = deleteRequests (trace w) @ map (nameKey ns) (deleted @ [p])"
      by blast
    from t keyp [OF d] later [OF d] d
    show "\<exists>p rest. orphanPackages w ns = deleted @ p # rest
             \<and> deleteRequests (trace w') = deleteRequests (trace w) @ map pkgKey (deleted @ [p])
             \<and> (\<forall>q \<in> set (p # rest). q \<in> set (packageStore w'))"
      unfolding orph by (intro exI [of _ p] exI [of _ rest]) simp
  qed
  have c6: "\<forall>msg err. r = Inl (CheckErrFatal msg err) \<longrightarrow>
          deleteRequests (trace w') = deleteRequests (trace w) @ map pkgKey deleted"
    using fat keys by simp
  show ?thesis
    by (intro exI [of _ deleted] conjI st' c2 c3 c4 c5 c6 nolog)
qed

lemmas sweep_defs = deleteOrphanPkgs_def PackageList_def getFunctionsByPackage_def
  FunctionList_def deletePackage_def PackageDelete_def

theorem deleteOrphanPkgs_sweep_witness:
  "fst (deleteOrphanPkgs (exampleWorld BuildStatusSucceeded) ''default'') = Inr ()
   \<and> packageStore (snd (deleteOrphanPkgs (exampleWorld BuildStatusSucceeded) ''default''))
        = [examplePackage ''hello'' BuildStatusSucceeded]
   \<and> fst (deleteOrphanPkgs sweepWorld ''default'') = Inl (Returned ''refused'')
   \<and> examplePackage ''extra'' BuildStatusSucceeded
        \<in> set (packageStore (snd (deleteOrphanPkgs sweepWorld ''default'')))"
proof -
  let ?w = "exampleWorld BuildStatusSucceeded"
  have r1: "fst (deleteOrphanPkgs ?w ''default'') = Inr ()"
    by (simp add: sweep_defs example_defs run_defs)
  then obtain w1 where run1: "deleteOrphanPkgs ?w ''default'' = (Inr (), w1)"
    by (cases "deleteOrphanPkgs ?w ''default''") simp
  have d1: "distinct (map pkgKey (packageStore ?w))"
    by (simp add: example_defs run_defs)
  have o1: "orphanPackages ?w ''default'' = [examplePackage ''spare'' BuildStatusSucceeded]"
    by (simp add: orphanPackages_def functionsReferencing_def example_defs)
  from deleteOrphanPkgs_sweep [OF d1 run1] o1
  have "packageStore w1 = filter (\<lambda>q. q \<noteq> examplePackage ''spare'' BuildStatusSucceeded)
          (packageStore ?w)"
    by auto
  then have s1: "packageStore w1 = [examplePackage ''hello'' BuildStatusSucceeded]"
    by (simp add: example_defs)
  have r2: "fst (deleteOrphanPkgs sweepWorld ''default'') = Inl (Returned ''refused'')"
    by (simp add: sweep_defs sweepWorld_def refusing_def example_defs run_defs)
  then obtain w2 where run2: "deleteOrphanPkgs sweepWorld ''default'' = (Inl (Returned ''refused''), w2)"
    by (cases "deleteOrphanPkgs sweepWorld ''default''") simp
  have d2: "distinct (map pkgKey (packageStore sweepWorld))"
    by (simp add: sweepWorld_def refusing_def example_defs run_defs)
  have o2: "orphanPackages sweepWorld ''default'' =
      [examplePackage ''spare'' BuildStatusSucceeded, examplePackage ''extra'' BuildStatusSucceeded]"
    by (simp add: orphanPackages_def functionsReferencing_def sweepWorld_def refusing_def
        example_defs)
  have f2: "faults (cfg sweepWorld) (tick sweepWorld) (ReqPackageList ''default'') = None"
    by (simp add: sweepWorld_def refusing_def)
  from deleteOrphanPkgs_sweep [OF d2 run2] f2 obtain deleted p rest where
    dec: "orphanPackages sweepWorld ''default'' = deleted @ p # rest"
    and kept: "\<forall>q \<in> set (p # rest). q \<in> set (packageStore w2)"
    by auto
  from dec have "examplePackage ''extra'' BuildStatusSucceeded \<in> set (p # rest)"
    unfolding o2 by (auto simp add: Cons_eq_append_conv)
  with kept have "examplePackage ''extra'' BuildStatusSucceeded \<in> set (packageStore w2)"
    by blast
  with r1 run1 s1 r2 run2 show ?thesis
    by simp
qed

section \<open>Propagation of the resource version to the functions\<close>



lemma updateRequests_append [simp]:
  "updateRequests (xs @ ys) = updateRequests xs @ updateRequests ys"
  by (induction xs rule: updateRequests.induct) auto

lemma invoke_quiet:
  assumes "invoke w r = (x, w')" "updateRequests [r] = []"
  shows "functionStore w' = functionStore w \<and> updateRequests (trace w') = updateRequests (trace w)
     \<and> packageStore w' = packageStore w \<and> nextVersion w' = nextVersion w"
  using assms by (auto simp add: invoke_def)

lemma draw_quiet:
  "draw w = (t, w') \<Longrightarrow>
     functionStore w' = functionStore w \<and> updateRequests (trace w') = updateRequests (trace w)
     \<and> packageStore w' = packageStore w \<and> nextVersion w' = nextVersion w"
  by (auto simp add: draw_def)

lemma GetTempDir_quiet:
  "GetTempDir w = (r, w') \<Longrightarrow>
     functionStore w' = functionStore w \<and> updateRequests (trace w') = updateRequests (trace w)
     \<and> packageStore w' = packageStore w \<and> nextVersion w' = nextVersion w"
  by (auto simp add: GetTempDir_def split: prod.splits option.splits dest!: invoke_quiet)

lemma DownloadURL_quiet:
  "DownloadURL w u = (r, w') \<Longrightarrow>
     functionStore w' = functionStore w \<and> updateRequests (trace w') = updateRequests (trace w)
     \<and> packageStore w' = packageStore w \<and> nextVersion w' = nextVersion w"
  by (auto simp add: DownloadURL_def split: prod.splits option.splits dest!: invoke_quiet)

lemma WriteArchiveToFile_quiet:
  "WriteArchiveToFile w f b = (r, w') \<Longrightarrow>
     functionStore w' = functionStore w \<and> updateRequests (trace w') = updateRequests (trace w)
     \<and> packageStore w' = packageStore w \<and> nextVersion w' = nextVersion w"
  by (auto simp add: WriteArchiveToFile_def Let_def split: prod.splits option.splits sum.splits
      dest!: invoke_quiet GetTempDir_quiet)





lemma CheckErr_dest: "CheckErr msg x = (r, w') \<Longrightarrow> \<exists>y. x = (y, w')"
  by (cases x) (auto simp add: CheckErr_def split: sum.splits)

lemma DownloadToTempFile_quiet:
  "DownloadToTempFile w u = (r, w') \<Longrightarrow>
     functionStore w' = functionStore w \<and> updateRequests (trace w') = updateRequests (trace w)
     \<and> packageStore w' = packageStore w \<and> nextVersion w' = nextVersion w"
  by (auto simp add: DownloadToTempFile_def Let_def
      split: prod.splits option.splits sum.splits
      dest!: CheckErr_dest invoke_quiet GetTempDir_quiet DownloadURL_quiet WriteArchiveToFile_quiet draw_quiet)


lemma archiveName_quiet:
  "archiveName w h i = (n, w') \<Longrightarrow>
     functionStore w' = functionStore w \<and> updateRequests (trace w') = updateRequests (trace w)
     \<and> packageStore w' = packageStore w \<and> nextVersion w' = nextVersion w"
  by (auto simp add: archiveName_def split: prod.splits if_splits list.splits dest!: draw_quiet)

lemma MakeArchive_quiet:
  "MakeArchive w t g = (r, w') \<Longrightarrow>
     functionStore w' = functionStore w \<and> updateRequests (trace w') = updateRequests (trace w)
     \<and> packageStore w' = packageStore w \<and> nextVersion w' = nextVersion w"
  by (auto simp add: MakeArchive_def split: prod.splits option.splits dest!: invoke_quiet)

lemma ReadSpecs_quiet:
  "ReadSpecs w d = (r, w') \<Longrightarrow>
     functionStore w' = functionStore w \<and> updateRequests (trace w') = updateRequests (trace w)
     \<and> packageStore w' = packageStore w \<and> nextVersion w' = nextVersion w"
  by (auto simp add: ReadSpecs_def split: prod.splits option.splits dest!: invoke_quiet)

lemma SpecSave_quiet:
  "SpecSave w a f = (r, w') \<Longrightarrow>
     functionStore w' = functionStore w \<and> updateRequests (trace w') = updateRequests (trace w)
     \<and> packageStore w' = packageStore w \<and> nextVersion w' = nextVersion w"
  by (auto simp add: SpecSave_def split: prod.splits option.splits dest!: invoke_quiet)

lemma Upload_quiet:
  "Upload w b f = (r, w') \<Longrightarrow>
     functionStore w' = functionStore w \<and> updateRequests (trace w') = updateRequests (trace w)
     \<and> packageStore w' = packageStore w \<and> nextVersion w' = nextVersion w"
  by (auto simp add: Upload_def Let_def split: prod.splits option.splits dest!: invoke_quiet)

lemma GetSvcURL_quiet:
  "GetSvcURL w l = (r, w') \<Longrightarrow>
     functionStore w' = functionStore w \<and> updateRequests (trace w') = updateRequests (trace w)
     \<and> packageStore w' = packageStore w \<and> nextVersion w' = nextVersion w"
  by (auto simp add: GetSvcURL_def split: prod.splits option.splits dest!: invoke_quiet)

lemma FileChecksum_quiet:
  "FileChecksum w f = (r, w') \<Longrightarrow>
     functionStore w' = functionStore w \<and> updateRequests (trace w') = updateRequests (trace w)
     \<and> packageStore w' = packageStore w \<and> nextVersion w' = nextVersion w"
  by (auto simp add: FileChecksum_def split: prod.splits option.splits dest!: invoke_quiet)

lemma Stat_pure: "Stat w f = (r, w') \<Longrightarrow> w' = w"
  by (auto simp add: Stat_def split: option.splits)

lemma ReadFile_pure: "ReadFile w f = (r, w') \<Longrightarrow> w' = w"
  by (auto simp add: ReadFile_def split: option.splits)

lemma UploadArchive_store_quiet:
  "UploadArchive_store w f = (r, w') \<Longrightarrow>
     functionStore w' = functionStore w \<and> updateRequests (trace w') = updateRequests (trace w)
     \<and> packageStore w' = packageStore w \<and> nextVersion w' = nextVersion w"
  by (auto simp add: UploadArchive_store_def FileSize_def GetContents_def Let_def
      split: prod.splits sum.splits if_splits
      dest!: CheckErr_dest Stat_pure ReadFile_pure Upload_quiet GetSvcURL_quiet FileChecksum_quiet)

lemma UploadArchive_quiet:
  "UploadArchive w f = (r, w') \<Longrightarrow>
     functionStore w' = functionStore w \<and> updateRequests (trace w') = updateRequests (trace w)
     \<and> packageStore w' = packageStore w \<and> nextVersion w' = nextVersion w"
  by (auto simp add: UploadArchive_def split: prod.splits sum.splits if_splits
      dest!: DownloadToTempFile_quiet UploadArchive_store_quiet)

lemma makeArchiveFileIfNeeded_quiet:
  "makeArchiveFileIfNeeded w h i z = (r, w') \<Longrightarrow>
     functionStore w' = functionStore w \<and> updateRequests (trace w') = updateRequests (trace w)
     \<and> packageStore w' = packageStore w \<and> nextVersion w' = nextVersion w"
  by (auto simp add: makeArchiveFileIfNeeded_def Let_def
      split: prod.splits option.splits sum.splits if_splits list.splits
      dest!: CheckErr_dest Stat_pure archiveName_quiet GetTempDir_quiet MakeArchive_quiet)

lemma createArchive_check_pure:
  "createArchive_check w ps errs = (r, w') \<Longrightarrow> w' = w"
  by (induction w ps errs rule: createArchive_check.induct)
    (auto simp add: CheckErr_def split: sum.splits if_splits)

lemma createArchive_quiet:
  "createArchive w i z d f = (r, w') \<Longrightarrow>
     functionStore w' = functionStore w \<and> updateRequests (trace w') = updateRequests (trace w)
     \<and> packageStore w' = packageStore w \<and> nextVersion w' = nextVersion w"
  by (auto simp add: createArchive_def Println_def Let_def
      split: prod.splits option.splits sum.splits if_splits
      dest!: CheckErr_dest archiveName_quiet ReadSpecs_quiet SpecSave_quiet
        createArchive_check_pure makeArchiveFileIfNeeded_quiet UploadArchive_quiet)


lemma PackageUpdate_quiet:
  "PackageUpdate w p = (r, w') \<Longrightarrow>
     functionStore w' = functionStore w \<and> updateRequests (trace w') = updateRequests (trace w)"
  by (auto simp add: PackageUpdate_def Let_def split: prod.splits option.splits if_splits
      dest!: invoke_quiet)

lemma PackageGet_quiet:
  "PackageGet w ns n = (r, w') \<Longrightarrow>
     functionStore w' = functionStore w \<and> updateRequests (trace w') = updateRequests (trace w)
     \<and> packageStore w' = packageStore w \<and> nextVersion w' = nextVersion w"
  by (auto simp add: PackageGet_def invoke_def split: prod.splits option.splits)

lemma PackageGet_Inr:
  "PackageGet w ns n = (Inr p, w') \<Longrightarrow>
     Meta_Namespace (Pkg_Metadata p) = ns \<and> Meta_Name (Pkg_Metadata p) = n
     \<and> storedPackage w ns n = Some p"
  by (auto simp add: PackageGet_def invoke_def pkgKey_def storedPackage_def find_Some_iff
      split: prod.splits option.splits)

lemma updatePackage_quiet:
  "updatePackage w pkg envName envNamespace src deploy buildcmd forceRebuild noZip = (r, w') \<Longrightarrow>
     functionStore w' = functionStore w \<and> updateRequests (trace w') = updateRequests (trace w)"
  by (auto simp add: updatePackage_def updatePackage_source_def updatePackage_deploy_def
        updatePackage_persist_def Let_def
      split: prod.splits sum.splits if_splits
      dest!: CheckErr_dest createArchive_quiet PackageUpdate_quiet)

lemma PackageUpdate_Inl_frame:
  "PackageUpdate w p = (Inl e, w') \<Longrightarrow>
     packageStore w' = packageStore w \<and> nextVersion w' = nextVersion w"
  by (auto simp add: PackageUpdate_def invoke_def Let_def split: option.splits if_splits)

lemma updatePackage_source_quiet:
  "updatePackage_source w pkg n src = (r, w') \<Longrightarrow>
     packageStore w' = packageStore w \<and> nextVersion w' = nextVersion w"
  by (auto simp add: updatePackage_source_def split: prod.splits sum.splits if_splits
      dest!: createArchive_quiet)

lemma updatePackage_deploy_quiet:
  "updatePackage_deploy w pkg n deploy noZip = (r, w') \<Longrightarrow>
     packageStore w' = packageStore w \<and> nextVersion w' = nextVersion w"
  by (auto simp add: updatePackage_deploy_def split: prod.splits sum.splits if_splits
      dest!: createArchive_quiet)

lemma updatePackage_persist_Inl:
  "updatePackage_persist w pkg n forceRebuild = (Inl e, w') \<Longrightarrow>
     packageStore w' = packageStore w \<and> nextVersion w' = nextVersion w"
  by (auto simp add: updatePackage_persist_def Let_def CheckErr_def
      split: prod.splits sum.splits if_splits dest!: PackageUpdate_Inl_frame)

lemma updatePackage_Inl:
  assumes "updatePackage w pkg envName envNamespace src deploy buildcmd forceRebuild noZip
             = (Inl e, w')"
  shows "packageStore w' = packageStore w \<and> nextVersion w' = nextVersion w"
proof -
  obtain pkg3 n3 where a: "updatePackage_spec pkg envName envNamespace buildcmd = (pkg3, n3)"
    by (cases "updatePackage_spec pkg envName envNamespace buildcmd")
  obtain x w1 where b: "updatePackage_source w pkg3 n3 src = (x, w1)"
    by (cases "updatePackage_source w pkg3 n3 src")
  note B = updatePackage_source_quiet [OF b]
  show ?thesis
  proof (cases x)
    case (Inl e1)
    with assms a b B show ?thesis
      by (simp add: updatePackage_def)
  next
    case (Inr pn)
    obtain pkg4 n4 where pn: "pn = (pkg4, n4)"
      by (cases pn)
    obtain y w2 where c: "updatePackage_deploy w1 pkg4 n4 deploy noZip = (y, w2)"
      by (cases "updatePackage_deploy w1 pkg4 n4 deploy noZip")
    note C = updatePackage_deploy_quiet [OF c]
    show ?thesis
    proof (cases y)
      case (Inl e2)
      with assms a b Inr pn c B C show ?thesis
        by (simp add: updatePackage_def)
    next
      case y: (Inr pn')
      obtain pkg5 n5 where pn': "pn' = (pkg5, n5)"
        by (cases pn')
      from assms a b Inr pn c y pn'
      have "updatePackage_persist w2 pkg5 n5 forceRebuild = (Inl e, w')"
        by (simp add: updatePackage_def)
      from updatePackage_persist_Inl [OF this] B C show ?thesis
        by simp
    qed
  qed
qed

lemma updatePackage_version:
  assumes "updatePackage w pkg envName envNamespace src deploy buildcmd forceRebuild noZip
             = (Inr (m, pkg'), w')"
  shows "Meta_ResourceVersion m = nextVersion w"
proof -
  from assms obtain pkg3 n3 pkg4 n4 w1 pkg5 n5 w2 where
    b: "updatePackage_source w pkg3 n3 src = (Inr (pkg4, n4), w1)"
    and c: "updatePackage_deploy w1 pkg4 n4 deploy noZip = (Inr (pkg5, n5), w2)"
    and d: "updatePackage_persist w2 pkg5 n5 forceRebuild = (Inr (m, pkg'), w')"
    by (rule updatePackage_steps)
  from PackageUpdate_Inr(1) [OF updatePackage_persist_Inr(1) [OF d]]
    updatePackage_source_quiet [OF b] updatePackage_deploy_quiet [OF c]
  show ?thesis
    by simp
qed

lemma find_map_other:
  assumes "key new = k" "k' \<noteq> k"
  shows "find (\<lambda>q. key q = k') (map (\<lambda>q. if key q = k then new else q) xs)
       = find (\<lambda>q. key q = k') xs"
  using assms by (induction xs) auto

lemma find_distinct_key:
  assumes "distinct (map key xs)" "x \<in> set xs"
  shows "find (\<lambda>q. key q = key x) xs = Some x"
  using assms by (induction xs) (auto simp add: image_iff)

lemma FunctionUpdate_Inl:
  assumes "FunctionUpdate w fn = (Inl e, w')"
  shows "functionStore w' = functionStore w" "packageStore w' = packageStore w"
    "updateRequests (trace w') = updateRequests (trace w) @ [fnKey fn]"
  using assms
  by (auto simp add: FunctionUpdate_def invoke_def Let_def split: option.splits if_splits)

lemma FunctionUpdate_Inr:
  assumes "FunctionUpdate w fn = (Inr m, w')"
  shows "storedFunction w' (Meta_Namespace (Fn_Metadata fn)) (Meta_Name (Fn_Metadata fn))
           = Some (fn\<lparr>Fn_Metadata := m\<rparr>)"
    and "(ns, n) \<noteq> fnKey fn \<Longrightarrow> storedFunction w' ns n = storedFunction w ns n"
    and "packageStore w' = packageStore w"
    and "updateRequests (trace w') = updateRequests (trace w) @ [fnKey fn]"
proof -
  from assms obtain old where
    old: "find (\<lambda>g. fnKey g = fnKey fn) (functionStore w) = Some old"
    and w': "functionStore w' =
        map (\<lambda>g. if fnKey g = fnKey fn then fn\<lparr>Fn_Metadata := m\<rparr> else g) (functionStore w)"
      "packageStore w' = packageStore w"
      "updateRequests (trace w') = updateRequests (trace w) @ [fnKey fn]"
    and m: "Meta_Name m = Meta_Name (Fn_Metadata fn)"
      "Meta_Namespace m = Meta_Namespace (Fn_Metadata fn)"
    by (auto simp add: FunctionUpdate_def invoke_def Let_def split: option.splits if_splits)
  have k: "fnKey (fn\<lparr>Fn_Metadata := m\<rparr>) = fnKey fn"
    by (simp add: fnKey_def m)
  from find_map_replace [OF old k] w'(1)
  show "storedFunction w' (Meta_Namespace (Fn_Metadata fn)) (Meta_Name (Fn_Metadata fn))
           = Some (fn\<lparr>Fn_Metadata := m\<rparr>)"
    by (simp add: storedFunction_def fnKey_def)
  show "storedFunction w' ns n = storedFunction w ns n" if "(ns, n) \<noteq> fnKey fn"
    using find_map_other [where key = fnKey and new = "fn\<lparr>Fn_Metadata := m\<rparr>"
        and k = "fnKey fn" and k' = "(ns, n)" and xs = "functionStore w"] k that w'(1)
    by (simp add: storedFunction_def)
  show "packageStore w' = packageStore w"
    "updateRequests (trace w') = updateRequests (trace w) @ [fnKey fn]"
    by (fact w')+
qed


lemma pkgUpdate_functions_keeps:
  assumes "pkgUpdate_functions w fns rv = (r, w')"
    and "storedRefVersion w ns n = Some rv"
  shows "storedRefVersion w' ns n = Some rv"
  using assms
proof (induction fns arbitrary: w)
  case Nil
  then show ?case by simp
next
  case (Cons fn rest)
  let ?fn = "fn\<lparr>Fn_PackageRef := (Fn_PackageRef fn)\<lparr>Ref_ResourceVersion := rv\<rparr>\<rparr>"
  obtain x w1 where fu: "FunctionUpdate w ?fn = (x, w1)"
    by (cases "FunctionUpdate w ?fn")
  show ?case
  proof (cases x)
    case (Inl e)
    with Cons.prems fu FunctionUpdate_Inl(1) [of w ?fn e w1] show ?thesis
      by (simp add: CheckErr_def storedRefVersion_def storedFunction_def)
  next
    case (Inr m)
    with Cons.prems fu have loop: "pkgUpdate_functions w1 rest rv = (r, w')"
      by (simp add: CheckErr_def)
    have "storedRefVersion w1 ns n = Some rv"
    proof (cases "(ns, n) = fnKey ?fn")
      case True
      with FunctionUpdate_Inr(1) [OF fu [unfolded Inr]] show ?thesis
        by (simp add: storedRefVersion_def fnKey_def)
    next
      case False
      with FunctionUpdate_Inr(2) [OF fu [unfolded Inr]] Cons.prems(2) show ?thesis
        by (simp add: storedRefVersion_def)
    qed
    with Cons.IH [OF loop] show ?thesis .
  qed
qed

lemma pkgUpdate_functions_Inr:
  assumes "pkgUpdate_functions w fns rv = (Inr (), w')"
  shows "\<forall>fn \<in> set fns.
           storedRefVersion w' (Meta_Namespace (Fn_Metadata fn)) (Meta_Name (Fn_Metadata fn))
             = Some rv"
    and "updateRequests (trace w') = updateRequests (trace w) @ map fnKey fns"
    and "packageStore w' = packageStore w"
  using assms
proof (induction fns arbitrary: w)
  case Nil
  {
    case 1 then show ?case by simp
  next
    case 2 then show ?case by simp
  next
    case 3 then show ?case by simp
  }
next
  case (Cons fn rest)
  let ?fn = "fn\<lparr>Fn_PackageRef := (Fn_PackageRef fn)\<lparr>Ref_ResourceVersion := rv\<rparr>\<rparr>"
  {
    case 1
    then obtain m w1 where fu: "FunctionUpdate w ?fn = (Inr m, w1)"
      and loop: "pkgUpdate_functions w1 rest rv = (Inr (), w')"
      by (auto simp add: CheckErr_def split: prod.splits sum.splits)
    from FunctionUpdate_Inr(1) [OF fu]
    have "storedRefVersion w1 (Meta_Namespace (Fn_Metadata fn)) (Meta_Name (Fn_Metadata fn))
            = Some rv"
      by (simp add: storedRefVersion_def)
    from pkgUpdate_functions_keeps [OF loop this] Cons.IH(1) [OF loop]
    show ?case by simp
  next
    case 2
    then obtain m w1 where fu: "FunctionUpdate w ?fn = (Inr m, w1)"
      and loop: "pkgUpdate_functions w1 rest rv = (Inr (), w')"
      by (auto simp add: CheckErr_def split: prod.splits sum.splits)
    from FunctionUpdate_Inr(4) [OF fu] Cons.IH(2) [OF loop]
    show ?case by (simp add: fnKey_def)
  next
    case 3
    then obtain m w1 where fu: "FunctionUpdate w ?fn = (Inr m, w1)"
      and loop: "pkgUpdate_functions w1 rest rv = (Inr (), w')"
      by (auto simp add: CheckErr_def split: prod.splits sum.splits)
    from FunctionUpdate_Inr(3) [OF fu] Cons.IH(3) [OF loop]
    show ?case by simp
  }
qed


lemma pkgUpdate_functions_Inl:
  assumes "pkgUpdate_functions w fns rv = (Inl e, w')"
  shows "\<exists>done fn rest err w''.
           fns = done @ fn # rest \<and> e = CheckErrFatal ''update function'' err
         \<and> pkgUpdate_functions w done rv = (Inr (), w'')
         \<and> functionStore w' = functionStore w''
         \<and> packageStore w' = packageStore w
         \<and> updateRequests (trace w') = updateRequests (trace w) @ map fnKey (done @ [fn])"
  using assms
proof (induction fns arbitrary: w)
  case Nil
  then show ?case by simp
next
  case (Cons fn rest)
  let ?fn = "fn\<lparr>Fn_PackageRef := (Fn_PackageRef fn)\<lparr>Ref_ResourceVersion := rv\<rparr>\<rparr>"
  obtain x w1 where fu: "FunctionUpdate w ?fn = (x, w1)"
    by (cases "FunctionUpdate w ?fn")
  show ?case
  proof (cases x)
    case (Inl err)
    with Cons.prems fu have "e = CheckErrFatal ''update function'' err" "w' = w1"
      by (simp_all add: CheckErr_def)
    with FunctionUpdate_Inl [OF fu [unfolded Inl]] show ?thesis
      by (intro exI [of _ "[]"] exI [of _ fn] exI [of _ rest] exI [of _ err] exI [of _ w])
        (simp add: fnKey_def)
  next
    case (Inr m)
    with Cons.prems fu have loop: "pkgUpdate_functions w1 rest rv = (Inl e, w')"
      by (simp add: CheckErr_def)
    from Cons.IH [OF loop] obtain dn f rs err w'' where
      "rest = dn @ f # rs" "e = CheckErrFatal ''update function'' err"
      "pkgUpdate_functions w1 dn rv = (Inr (), w'')"
      "functionStore w' = functionStore w''" "packageStore w' = packageStore w1"
      "updateRequests (trace w') = updateRequests (trace w1) @ map fnKey (dn @ [f])"
      by blast
    with fu Inr FunctionUpdate_Inr(3,4) [OF fu [unfolded Inr]] show ?thesis
      by (intro exI [of _ "fn # dn"] exI [of _ f] exI [of _ rs] exI [of _ err] exI [of _ w''])
        (simp add: CheckErr_def fnKey_def)
  qed
qed

lemma pkgUpdate_functions_other:
  assumes "pkgUpdate_functions w fns rv = (r, w')" "(ns, n) \<notin> fnKey ` set fns"
  shows "storedFunction w' ns n = storedFunction w ns n"
  using assms
proof (induction fns arbitrary: w)
  case Nil
  then show ?case by simp
next
  case (Cons fn rest)
  let ?fn = "fn\<lparr>Fn_PackageRef := (Fn_PackageRef fn)\<lparr>Ref_ResourceVersion := rv\<rparr>\<rparr>"
  obtain x w1 where fu: "FunctionUpdate w ?fn = (x, w1)"
    by (cases "FunctionUpdate w ?fn")
  from Cons.prems(2) have ne: "(ns, n) \<noteq> fnKey ?fn" and nr: "(ns, n) \<notin> fnKey ` set rest"
    by (auto simp add: fnKey_def)
  show ?case
  proof (cases x)
    case (Inl err)
    with Cons.prems fu FunctionUpdate_Inl(1) [of w ?fn err w1] show ?thesis
      by (simp add: CheckErr_def storedFunction_def)
  next
    case (Inr m)
    with Cons.prems fu have loop: "pkgUpdate_functions w1 rest rv = (r, w')"
      by (simp add: CheckErr_def)
    from Cons.IH [OF loop nr] FunctionUpdate_Inr(2) [OF fu [unfolded Inr] ne]
    show ?thesis by simp
  qed
qed

lemma getFunctionsByPackage_quiet:
  "getFunctionsByPackage w n ns = (r, w') \<Longrightarrow>
     functionStore w' = functionStore w \<and> updateRequests (trace w') = updateRequests (trace w)
     \<and> packageStore w' = packageStore w \<and> nextVersion w' = nextVersion w"
  by (auto simp add: getFunctionsByPackage_eq split: option.splits)

lemma getFunctionsByPackage_Inr:
  "getFunctionsByPackage w n ns = (Inr fns, w') \<Longrightarrow> fns = functionsReferencing w n ns"
  by (auto simp add: getFunctionsByPackage_eq split: option.splits)

lemmas pkgUpdate_defs = pkgUpdate_def PackageGet_def getFunctionsByPackage_def FunctionList_def
  FunctionUpdate_def PackageUpdate_def

text \<open>
  C6, as stated, fails twice.  When the write of a function is refused: in the forced
  update of \<open>hello\<close>, shared by \<open>f1\<close> and \<open>f2\<close>, with the write of
  \<open>f1\<close> refused, the package is updated (resource version 10) and the command
  terminates on the error of \<open>f1\<close>; the write of \<open>f2\<close> is never requested,
  \<open>f2\<close> still refers to resource version 1, and nothing is reported about it.
  And the functions written are not those whose package reference matches the package
  by name and namespace: in \<open>crossWorld\<close> the forced update of \<open>hello\<close> of
  the namespace \<open>default\<close> succeeds, the function \<open>g\<close> of the namespace
  \<open>other\<close>, which refers to that package by name and namespace, still refers to
  resource version 1 and no write of it was requested, while the function \<open>h\<close> of
  the namespace \<open>default\<close>, which refers to a package \<open>hello\<close> of the
  namespace \<open>other\<close>, now refers to resource version 10.
\<close>

theorem pkgUpdate_fanout_counterexample:
  "failureOf (pkgUpdate (refusing (ReqFunctionUpdate ''default'' ''f1'')
        (exampleWorld BuildStatusSucceeded)) fanoutFlags)
     = Some (CheckErrFatal ''update function'' ''refused'')
   \<and> storedVersion (snd (pkgUpdate (refusing (ReqFunctionUpdate ''default'' ''f1'')
        (exampleWorld BuildStatusSucceeded)) fanoutFlags)) ''default'' ''hello'' = Some 10
   \<and> storedRefVersion (snd (pkgUpdate (refusing (ReqFunctionUpdate ''default'' ''f1'')
        (exampleWorld BuildStatusSucceeded)) fanoutFlags)) ''default'' ''f2'' = Some 1
   \<and> updateRequests (trace (snd (pkgUpdate (refusing (ReqFunctionUpdate ''default'' ''f1'')
        (exampleWorld BuildStatusSucceeded)) fanoutFlags))) = [(''default'', ''f1'')]
   \<and> resultOf (pkgUpdate crossWorld fanoutFlags) = Some ()
   \<and> storedVersion (snd (pkgUpdate crossWorld fanoutFlags)) ''default'' ''hello'' = Some 10
   \<and> map_option Fn_PackageRef (storedFunction crossWorld ''other'' ''g'')
       = Some \<lparr>Ref_Namespace = ''default'', Ref_Name = ''hello'', Ref_ResourceVersion = 1\<rparr>
   \<and> storedRefVersion (snd (pkgUpdate crossWorld fanoutFlags)) ''other'' ''g'' = Some 1
   \<and> map_option Fn_PackageRef (storedFunction crossWorld ''default'' ''h'')
       = Some \<lparr>Ref_Namespace = ''other'', Ref_Name = ''hello'', Ref_ResourceVersion = 1\<rparr>
   \<and> storedRefVersion (snd (pkgUpdate crossWorld fanoutFlags)) ''default'' ''h'' = Some 10
   \<and> updateRequests (trace (snd (pkgUpdate crossWorld fanoutFlags)))
       = [(''default'', ''f1''), (''default'', ''h'')]"
  by (simp add: pkgUpdate_defs updatePackage_defs fanoutFlags_def refusing_def crossWorld_def
      storedVersion_def storedRefVersion_def example_defs run_defs)

text \<open>
  C6, amended.  In a store whose functions have distinct keys, with \<open>rv\<close> the
  resource version that the store issues next.  The functions that \<open>pkgUpdate\<close>
  writes are the functions of the namespace of the package whose package reference has
  the name of the package, whatever namespace that reference gives.  When
  \<open>pkgUpdate\<close> succeeds, the package is stored with the resource version
  \<open>rv\<close> and every one of these functions refers to \<open>rv\<close>.  When it fails,
  either the package was updated to \<open>rv\<close> and the write of one of these functions,
  \<open>fn\<close>, failed: the command terminates on that error, the functions before
  \<open>fn\<close> refer to \<open>rv\<close>, \<open>fn\<close> and the functions after it are stored
  as they were, and the write of \<open>fn\<close> is the last one requested; or the package
  was not updated: the packages and the functions are stored as they were, no resource
  version was issued and no write of a function was requested.  In every case a function
  that is not among these, such as a function of another namespace whose package
  reference matches the package by name and namespace, is stored as it was.
\<close>

theorem pkgUpdate_propagates:
  assumes dist: "distinct (map fnKey (functionStore w))"
    and run: "pkgUpdate w c = (r, w')"
  shows "(r = Inr () \<longrightarrow>
           storedVersion w' (flag_pkgNamespace c) (flag_name c) = Some (nextVersion w)
           \<and> (\<forall>fn \<in> set (functionsReferencing w (flag_name c) (flag_pkgNamespace c)).
                 storedRefVersion w' (Meta_Namespace (Fn_Metadata fn))
                   (Meta_Name (Fn_Metadata fn)) = Some (nextVersion w)))
       \<and> (\<forall>e. r = Inl e \<longrightarrow>
             (\<exists>err done fn rest.
                 e = CheckErrFatal ''update function'' err
               \<and> functionsReferencing w (flag_name c) (flag_pkgNamespace c) = done @ fn # rest
               \<and> storedVersion w' (flag_pkgNamespace c) (flag_name c) = Some (nextVersion w)
               \<and> (\<forall>d \<in> set done.
                     storedRefVersion w' (Meta_Namespace (Fn_Metadata d))
                       (Meta_Name (Fn_Metadata d)) = Some (nextVersion w))
               \<and> (\<forall>g \<in> set (fn # rest).
                     storedFunction w' (Meta_Namespace (Fn_Metadata g))
                       (Meta_Name (Fn_Metadata g)) = Some g)
               \<and> updateRequests (trace w')
                   = updateRequests (trace w) @ map fnKey (done @ [fn]))
           \<or> (packageStore w' = packageStore w
               \<and> functionStore w' = functionStore w
               \<and> nextVersion w' = nextVersion w
               \<and> updateRequests (trace w') = updateRequests (trace w)))
       \<and> (\<forall>g \<in> set (functionStore w).
             g \<notin> set (functionsReferencing w (flag_name c) (flag_pkgNamespace c)) \<longrightarrow>
               storedFunction w' (Meta_Namespace (Fn_Metadata g)) (Meta_Name (Fn_Metadata g))
                 = Some g)"
proof -
  let ?ns = "flag_pkgNamespace c" and ?n = "flag_name c"
  let ?rv = "nextVersion w"
  let ?refs = "functionsReferencing w ?n ?ns"
  let ?quiet = "\<lambda>v. packageStore v = packageStore w
                     \<and> functionStore v = functionStore w
                     \<and> nextVersion v = nextVersion w
                     \<and> updateRequests (trace v) = updateRequests (trace w)"
  let ?others = "\<lambda>v. \<forall>g \<in> set (functionStore w). g \<notin> set ?refs \<longrightarrow>
               storedFunction v (Meta_Namespace (Fn_Metadata g)) (Meta_Name (Fn_Metadata g))
                 = Some g"
  let ?goal = "\<lambda>r w'. (r = Inr () \<longrightarrow>
           storedVersion w' ?ns ?n = Some ?rv
           \<and> (\<forall>fn \<in> set ?refs.
                 storedRefVersion w' (Meta_Namespace (Fn_Metadata fn))
                   (Meta_Name (Fn_Metadata fn)) = Some ?rv))
       \<and> (\<forall>e. r = Inl e \<longrightarrow>
             (\<exists>err done fn rest.
                 e = CheckErrFatal ''update function'' err
               \<and> ?refs = done @ fn # rest
               \<and> storedVersion w' ?ns ?n = Some ?rv
               \<and> (\<forall>d \<in> set done.
                     storedRefVersion w' (Meta_Namespace (Fn_Metadata d))
                       (Meta_Name (Fn_Metadata d)) = Some ?rv)
               \<and> (\<forall>g \<in> set (fn # rest).
                     storedFunction w' (Meta_Namespace (Fn_Metadata g))
                       (Meta_Name (Fn_Metadata g)) = Some g)
               \<and> updateRequests (trace w')
                   = updateRequests (trace w) @ map fnKey (done @ [fn]))
           \<or> ?quiet w')
       \<and> ?others w'"
  have stored: "storedFunction w (Meta_Namespace (Fn_Metadata g)) (Meta_Name (Fn_Metadata g))
      = Some g" if "g \<in> set (functionStore w)" for g
    using find_distinct_key [OF dist that] by (simp add: storedFunction_def fnKey_def)
  have early: "?goal (Inl e) v" if "?quiet v" for e v
    using that stored by (simp add: storedFunction_def)
  obtain x w1 where get: "PackageGet w ?ns ?n = (x, w1)"
    by (cases "PackageGet w ?ns ?n")
  note q1 = PackageGet_quiet [OF get]
  show ?thesis
  proof (cases "?n = [] \<or> (flag_src c \<noteq> [] \<and> flag_deploy c \<noteq> [])
      \<or> (flag_src c = [] \<and> flag_deploy c = [] \<and> flag_env c = [] \<and> flag_buildcmd c = [])")
    case True
    with run have "\<exists>e. r = Inl e" "w' = w"
      by (auto simp add: pkgUpdate_def Let_def split: if_splits)
    with early [of w] show ?thesis by auto
  next
    case flags: False
    show ?thesis
    proof (cases x)
      case (Inl err)
      with flags run get have "r = Inl (CheckErrFatal ''get package'' err)" "w' = w1"
        by (auto simp add: pkgUpdate_def Let_def CheckErr_def)
      with early [of w1] q1 show ?thesis by simp
    next
      case (Inr pkg)
      note pg = PackageGet_Inr [OF get [unfolded Inr]]
      obtain y w2 where gf: "getFunctionsByPackage w1 ?n ?ns = (y, w2)"
        by (cases "getFunctionsByPackage w1 ?n ?ns")
      note q2 = getFunctionsByPackage_quiet [OF gf]
      show ?thesis
      proof (cases y)
        case (Inl err)
        with flags run get Inr gf pg
        have "r = Inl (CheckErrFatal ''get function list'' err)" "w' = w2"
          by (auto simp add: pkgUpdate_def Let_def CheckErr_def)
        with early [of w2] q1 q2 show ?thesis by simp
      next
        case fl: (Inr fnList)
        from getFunctionsByPackage_Inr [OF gf [unfolded fl]] q1
        have fnList: "fnList = ?refs"
          by (simp add: functionsReferencing_def)
        show ?thesis
        proof (cases "\<not> flag_f c \<and> length fnList > 1")
          case True
          with flags run get Inr gf fl pg
          have "\<exists>e. r = Inl e" "w' = w2"
            by (auto simp add: pkgUpdate_def Let_def CheckErr_def)
          with early [of w2] q1 q2 show ?thesis by auto
        next
          case force: False
          let ?envName = "if length (flag_env c) > 0
                \<and> flag_env c = Env_Name (Spec_Environment (Pkg_Spec pkg)) then [] else flag_env c"
          let ?envNamespace = "if flag_envNamespace c = Env_Namespace (Spec_Environment (Pkg_Spec pkg))
                then [] else flag_envNamespace c"
          obtain z w3 where up: "updatePackage w2 pkg ?envName ?envNamespace (flag_src c)
                 (flag_deploy c) (flag_buildcmd c) False False = (z, w3)"
            by (cases "updatePackage w2 pkg ?envName ?envNamespace (flag_src c)
                 (flag_deploy c) (flag_buildcmd c) False False")
          note q3 = updatePackage_quiet [OF up]
          show ?thesis
          proof (cases z)
            case (Inl e)
            with flags run get Inr gf fl pg force up
            have "r = Inl e" "w' = w3"
              by (auto simp add: pkgUpdate_def Let_def CheckErr_def)
            with early [of w3] q1 q2 q3 updatePackage_Inl [OF up [unfolded Inl]]
            show ?thesis by simp
          next
            case ok: (Inr mp)
            obtain m pkg' where mp: "mp = (m, pkg')"
              by (cases mp)
            note st = updatePackage_stored [OF up [unfolded ok mp]]
            have rv: "Meta_ResourceVersion m = ?rv"
              using updatePackage_version [OF up [unfolded ok mp]] q1 q2 by simp
            obtain r4 w4 where loop: "pkgUpdate_functions w3 fnList ?rv = (r4, w4)"
              by (cases "pkgUpdate_functions w3 fnList ?rv")
            have sv3: "storedVersion w3 ?ns ?n = Some ?rv"
              using st pg rv by (simp add: storedVersion_def)
            have sub: "set fnList \<subseteq> set (functionStore w)"
              unfolding fnList functionsReferencing_def by auto
            have others: "?others w4"
            proof (intro ballI impI)
              fix g assume g: "g \<in> set (functionStore w)" and out: "g \<notin> set ?refs"
              from dist have "inj_on fnKey (set (functionStore w))"
                by (simp add: distinct_map)
              with g out sub fnList have "fnKey g \<notin> fnKey ` set fnList"
                by (auto simp add: inj_on_def)
              then have "(Meta_Namespace (Fn_Metadata g), Meta_Name (Fn_Metadata g))
                    \<notin> fnKey ` set fnList"
                by (simp add: fnKey_def)
              from pkgUpdate_functions_other [OF loop this] stored [OF g] q1 q2 q3
              show "storedFunction w4 (Meta_Namespace (Fn_Metadata g))
                      (Meta_Name (Fn_Metadata g)) = Some g"
                by (simp add: storedFunction_def)
            qed
            show ?thesis
            proof (cases r4)
              case (Inr u)
              with flags run get \<open>x = Inr pkg\<close> gf fl pg force up ok mp loop rv
              have r: "r = Inr ()" "w' = Println w4
                  (''Package '' @ [CHR 0x27] @ Meta_Name m @ [CHR 0x27] @ '' updated'')"
                by (auto simp add: pkgUpdate_def Let_def CheckErr_def)
              note lp = pkgUpdate_functions_Inr [OF loop [unfolded Inr, simplified]]
              have a: "storedVersion w' ?ns ?n = Some ?rv"
                using sv3 lp(3) unfolding r
                by (simp add: Println_def storedVersion_def storedPackage_def)
              have b: "\<forall>fn \<in> set ?refs.
                 storedRefVersion w' (Meta_Namespace (Fn_Metadata fn))
                   (Meta_Name (Fn_Metadata fn)) = Some ?rv"
                using lp(1) unfolding r fnList
                by (simp add: Println_def storedRefVersion_def storedFunction_def)
              have c: "?others w'"
                using others unfolding r
                by (simp add: Println_def storedFunction_def)
              from a b c r(1) show ?thesis
                by simp
            next
              case (Inl e)
              with flags run get \<open>x = Inr pkg\<close> gf fl pg force up ok mp loop rv
              have r: "r = Inl e" "w' = w4"
                by (auto simp add: pkgUpdate_def Let_def CheckErr_def)
              from pkgUpdate_functions_Inl [OF loop [unfolded Inl]] obtain dn fn rest err w''
                where dec: "fnList = dn @ fn # rest"
                  and e: "e = CheckErrFatal ''update function'' err"
                  and lp: "pkgUpdate_functions w3 dn ?rv = (Inr (), w'')"
                  and fs: "functionStore w4 = functionStore w''"
                  and ps: "packageStore w4 = packageStore w3"
                  and tr: "updateRequests (trace w4)
                     = updateRequests (trace w3) @ map fnKey (dn @ [fn])"
                by blast
              have dl: "distinct (map fnKey fnList)"
                unfolding fnList functionsReferencing_def
                using dist by (simp add: distinct_map_filter)
              have a: "storedVersion w4 ?ns ?n = Some ?rv"
                using sv3 ps by (simp add: storedVersion_def storedPackage_def)
              have b: "\<forall>d \<in> set dn.
                     storedRefVersion w4 (Meta_Namespace (Fn_Metadata d))
                       (Meta_Name (Fn_Metadata d)) = Some ?rv"
                using pkgUpdate_functions_Inr(1) [OF lp] fs
                by (simp add: storedRefVersion_def storedFunction_def)
              have c: "\<forall>g \<in> set (fn # rest).
                     storedFunction w4 (Meta_Namespace (Fn_Metadata g))
                       (Meta_Name (Fn_Metadata g)) = Some g"
              proof
                fix g assume g: "g \<in> set (fn # rest)"
                with dec dl have "fnKey g \<notin> fnKey ` set dn"
                  by (auto simp add: distinct_map inj_on_def)
                then have "(Meta_Namespace (Fn_Metadata g), Meta_Name (Fn_Metadata g))
                      \<notin> fnKey ` set dn"
                  by (simp add: fnKey_def)
                from pkgUpdate_functions_other [OF lp this]
                have "storedFunction w'' (Meta_Namespace (Fn_Metadata g))
                        (Meta_Name (Fn_Metadata g))
                    = storedFunction w (Meta_Namespace (Fn_Metadata g))
                        (Meta_Name (Fn_Metadata g))"
                  using q1 q2 q3 by (simp add: storedFunction_def)
                moreover from g dec sub have "g \<in> set (functionStore w)"
                  by auto
                note stored [OF this]
                ultimately show "storedFunction w4 (Meta_Namespace (Fn_Metadata g))
                       (Meta_Name (Fn_Metadata g)) = Some g"
                  using fs by (simp add: storedFunction_def)
              qed
              have d: "updateRequests (trace w4)
                   = updateRequests (trace w) @ map fnKey (dn @ [fn])"
                using tr q1 q2 q3 by simp
              have "\<exists>err done fn rest.
                 e = CheckErrFatal ''update function'' err
               \<and> fnList = done @ fn # rest
               \<and> storedVersion w4 ?ns ?n = Some ?rv
               \<and> (\<forall>d \<in> set done.
                     storedRefVersion w4 (Meta_Namespace (Fn_Metadata d))
                       (Meta_Name (Fn_Metadata d)) = Some ?rv)
               \<and> (\<forall>g \<in> set (fn # rest).
                     storedFunction w4 (Meta_Namespace (Fn_Metadata g))
                       (Meta_Name (Fn_Metadata g)) = Some g)
               \<and> updateRequests (trace w4)
                   = updateRequests (trace w) @ map fnKey (done @ [fn])"
                using e dec a b c d by blast
              with others show ?thesis
                unfolding r fnList [symmetric]
                by simp
            qed
          qed
        qed
      qed
    qed
  qed
qed

theorem pkgUpdate_propagates_witness:
  "fst (pkgUpdate crossWorld fanoutFlags) = Inr ()
   \<and> storedVersion (snd (pkgUpdate crossWorld fanoutFlags)) ''default'' ''hello'' = Some 10
   \<and> storedRefVersion (snd (pkgUpdate crossWorld fanoutFlags)) ''default'' ''f1'' = Some 10
   \<and> storedRefVersion (snd (pkgUpdate crossWorld fanoutFlags)) ''default'' ''h'' = Some 10
   \<and> storedFunction (snd (pkgUpdate crossWorld fanoutFlags)) ''other'' ''g''
       = storedFunction crossWorld ''other'' ''g''
   \<and> storedFunction crossWorld ''other'' ''g'' \<noteq> None"
proof -
  let ?w = "crossWorld"
  let ?f1 = "exampleFunction ''f1'' ''hello''"
  let ?g = "(exampleFunction ''g'' ''hello'')
       \<lparr>Fn_Metadata := \<lparr>Meta_Name = ''g'', Meta_Namespace = ''other'',
                         Meta_ResourceVersion = 2\<rparr>\<rparr>"
  let ?h = "(exampleFunction ''h'' ''hello'')
       \<lparr>Fn_PackageRef := \<lparr>Ref_Namespace = ''other'', Ref_Name = ''hello'',
                           Ref_ResourceVersion = 1\<rparr>\<rparr>"
  have r: "fst (pkgUpdate ?w fanoutFlags) = Inr ()"
    by (simp add: pkgUpdate_defs updatePackage_defs fanoutFlags_def crossWorld_def
        example_defs run_defs)
  then obtain w' where run: "pkgUpdate ?w fanoutFlags = (Inr (), w')"
    by (cases "pkgUpdate ?w fanoutFlags") simp
  have store: "functionStore ?w = [?f1, ?g, ?h]" "nextVersion ?w = 10"
    by (simp_all add: crossWorld_def exampleWorld_def)
  have dist: "distinct (map fnKey (functionStore ?w))"
    unfolding store by (simp add: exampleFunction_def fnKey_def)
  have fl: "flag_name fanoutFlags = ''hello''" "flag_pkgNamespace fanoutFlags = ''default''"
    by (simp_all add: fanoutFlags_def exampleFlags_def)
  have refs: "functionsReferencing ?w ''hello'' ''default'' = [?f1, ?h]"
    unfolding functionsReferencing_def store by (simp add: exampleFunction_def)
  have g: "storedFunction ?w ''other'' ''g'' = Some ?g"
    unfolding storedFunction_def store by (simp add: exampleFunction_def fnKey_def)
  from pkgUpdate_propagates [OF dist run]
  have "storedVersion w' ''default'' ''hello'' = Some 10"
    "storedRefVersion w' ''default'' ''f1'' = Some 10"
    "storedRefVersion w' ''default'' ''h'' = Some 10"
    "storedFunction w' ''other'' ''g'' = Some ?g"
    unfolding fl refs store by (simp_all add: exampleFunction_def)
  with run g show ?thesis
    by simp
qed

section \<open>A single URL as the input of an archive\<close>


lemma CheckErr_Inr_iff [simp]: "(CheckErr msg x = (Inr a, w')) = (x = (Inr a, w'))"
  by (cases x) (auto simp add: CheckErr_def split: sum.splits)




















section \<open>Input errors\<close>

text \<open>
  The commands that name a package require the name, and \<open>pkgUpdate\<close> refuses a
  source archive together with a deployment archive: each reports with
  \<^verbatim>\<open>log.Fatal\<close> before any request is made.  An input of \<open>createArchive\<close>
  that is no URL and matches no file ends it the same way, the world untouched.
\<close>

lemma pkgUpdate_missing_name:
  "flag_name c = [] \<Longrightarrow> pkgUpdate w c = (Inl (LogFatal ''Need --name argument.''), w)"
  by (simp add: pkgUpdate_def)

lemma pkgUpdate_conflicting_flags:
  assumes "flag_name c \<noteq> []" "flag_src c \<noteq> []" "flag_deploy c \<noteq> []"
  shows "pkgUpdate w c =
    (Inl (LogFatal ''Need either of --src or --deploy and not both arguments.''), w)"
  using assms by (simp add: pkgUpdate_def Let_def)

lemma pkgRebuild_missing_name:
  "flag_name c = [] \<Longrightarrow>
     pkgRebuild w c = (Inl (LogFatal ''Need name of package, use --name''), w)"
  by (simp add: pkgRebuild_def)

lemma createArchive_no_match:
  assumes "\<not> isHTTP path" "FindAllGlobs (cfg w) (fs w) [path] = Inr []"
  shows "\<exists>msg. createArchive w [path] noZip specDir specFile = (Inl (LogFatal msg), w)"
  using assms by (simp add: createArchive_def CheckErr_def)

text \<open>
  C9.  \<open>pkgDelete\<close> does not do the same: given a package name together with the
  orphan flag, or neither of them, it prints the message and returns no error, so the
  command ends as a success.  (No request is made and the store is as before.)
\<close>

theorem pkgDelete_input_error_returns_nil:
  "pkgDelete w (exampleFlags\<lparr>flag_orphan := True\<rparr>)
     = (Inr (), w\<lparr>stdout := stdout w @ [''Need either --name argument or --orphan flag'']\<rparr>)
   \<and> pkgDelete w (exampleFlags\<lparr>flag_name := []\<rparr>)
     = (Inr (), w\<lparr>stdout := stdout w @ [''Need --name argument or --orphan flag.'']\<rparr>)"
  by (simp add: pkgDelete_def exampleFlags_def Println_def)

end
